theory Spec2Isabelle
  imports Main "HOL-Library.Word"
begin

unbundle bit_operations_syntax

section \<open>NTS-KE records in a message buffer (nts\_ke.c)\<close>

type_synonym byte = "8 word"

text \<open>
  \<^verbatim>\<open>htons\<close> followed by a \<^verbatim>\<open>memcpy\<close> of the 16-bit value lays it out in network
  order, most significant byte first; \<^verbatim>\<open>ntohs\<close> reads two bytes back.
\<close>

definition htons :: "16 word \<Rightarrow> byte list" where
  "htons w = [ucast (drop_bit 8 w), ucast w]"

definition ntohs :: "byte \<Rightarrow> byte \<Rightarrow> 16 word" where
  "ntohs hi lo = push_bit 8 (ucast hi) OR ucast lo"

definition RECORD_END_OF_MESSAGE :: nat where "RECORD_END_OF_MESSAGE = 0"
definition RECORD_NEXT_PROTOCOL :: nat where "RECORD_NEXT_PROTOCOL = 1"
definition RECORD_ERROR :: nat where "RECORD_ERROR = 2"
definition RECORD_WARNING :: nat where "RECORD_WARNING = 3"
definition RECORD_AEAD_ALGORITHM :: nat where "RECORD_AEAD_ALGORITHM = 4"
definition RECORD_COOKIE :: nat where "RECORD_COOKIE = 5"
definition RECORD_NTPV4_SERVER_NEGOTIATION :: nat where "RECORD_NTPV4_SERVER_NEGOTIATION = 6"
definition RECORD_NTPV4_PORT_NEGOTIATION :: nat where "RECORD_NTPV4_PORT_NEGOTIATION = 7"

definition ERROR_BAD_RESPONSE :: int where "ERROR_BAD_RESPONSE = - 2"
definition ERROR_NONE :: int where "ERROR_NONE = - 1"
definition ERROR_UNRECOGNIZED_CRITICAL_RECORD :: int where "ERROR_UNRECOGNIZED_CRITICAL_RECORD = 0"
definition ERROR_BAD_REQUEST :: int where "ERROR_BAD_REQUEST = 1"

definition NEXT_PROTOCOL_NONE :: int where "NEXT_PROTOCOL_NONE = - 1"
definition NEXT_PROTOCOL_NTPV4 :: int where "NEXT_PROTOCOL_NTPV4 = 0"
definition AEAD_NONE :: int where "AEAD_NONE = - 1"
definition AEAD_AES_SIV_CMAC_256 :: int where "AEAD_AES_SIV_CMAC_256 = 15"

definition MAX_MESSAGE_LENGTH :: nat where "MAX_MESSAGE_LENGTH = 16384"
definition MAX_RECORD_BODY_LENGTH :: nat where "MAX_RECORD_BODY_LENGTH = 256"
definition MAX_COOKIES :: nat where "MAX_COOKIES = 8"

text \<open>
  \<^verbatim>\<open>struct NKE_Message\<close>. The field \<open>data\<close> holds the first \<^verbatim>\<open>message->length\<close>
  bytes of the C array (the bytes that are valid), so \<^verbatim>\<open>message->length\<close> is
  \<open>length (data m)\<close>; the array's capacity \<^verbatim>\<open>sizeof (message->data)\<close> is
  \<open>MAX_MESSAGE_LENGTH\<close>. The cursors never go negative in the code and are \<open>nat\<close>.
\<close>

record NKE_Message =
  sent :: nat
  eof :: bool
  parsed :: nat
  data :: "byte list"

datatype NtsKeMsgFormat = MSG_INCOMPLETE | MSG_ERROR | MSG_OK

definition reset_message :: "NKE_Message \<Rightarrow> NKE_Message" where
  "reset_message m = m\<lparr>data := [], sent := 0, eof := False, parsed := 0\<rparr>"

text \<open>
  \<^verbatim>\<open>add_record\<close>: \<open>None\<close> is the return value 0 (the message is left as it was),
  \<open>Some\<close> the return value 1 with the message after the two \<^verbatim>\<open>memcpy\<close>s. The body
  pointer and \<^verbatim>\<open>body_length\<close> are the list \<open>body\<close> and its length; the header's type
  is \<^verbatim>\<open>!!critical * RECORD_CRITICAL_BIT | type\<close> cut to 16 bits by the assignment.
\<close>

definition add_record :: "NKE_Message \<Rightarrow> bool \<Rightarrow> nat \<Rightarrow> byte list \<Rightarrow> NKE_Message option" where
  "add_record m critical type body =
     (if length body > 0xffff \<or> length (data m) + 4 + length body > MAX_MESSAGE_LENGTH
      then None
      else Some (m\<lparr>data := data m
                     @ htons (word_of_nat ((if critical then 0x8000 else 0) OR type))
                     @ htons (word_of_nat (length body))
                     @ body\<rparr>))"

definition reset_message_parsing :: "NKE_Message \<Rightarrow> NKE_Message" where
  "reset_message_parsing m = m\<lparr>parsed := 0\<rparr>"

text \<open>
  The values \<^verbatim>\<open>get_record\<close> writes through its out-parameters, with the message whose
  cursor has moved. \<open>o_body\<close> is the caller's buffer after the
  \<^verbatim>\<open>memcpy(body, ..., MIN(*body_length, blen))\<close>: its first bytes are overwritten, the
  rest keeps what it held. A caller that passes \<^verbatim>\<open>body = NULL\<close> passes the empty
  buffer and capacity 0.
\<close>

record record_out =
  o_message :: NKE_Message
  o_critical :: bool
  o_type :: nat
  o_body :: "byte list"
  o_body_length :: nat

definition get_record :: "NKE_Message \<Rightarrow> byte list \<Rightarrow> nat \<Rightarrow> record_out option" where
  "get_record m body body_length =
     (if length (data m) < parsed m + 4 then None
      else
        let htype = ntohs (data m ! parsed m) (data m ! (parsed m + 1));
            blen = unat (ntohs (data m ! (parsed m + 2)) (data m ! (parsed m + 3)));
            rlen = 4 + blen
        in if length (data m) < parsed m + rlen then None
           else Some \<lparr>o_message = m\<lparr>parsed := parsed m + rlen\<rparr>,
                      o_critical = (htype AND 0x8000 \<noteq> 0),
                      o_type = unat (htype AND 0x7fff),
                      o_body = take (min body_length blen) (drop (parsed m + 4) (data m))
                               @ drop (min body_length blen) body,
                      o_body_length = blen\<rparr>)"

lemma get_record_parsed:
  "get_record m body n = Some r \<Longrightarrow>
     parsed m < parsed (o_message r) \<and> parsed (o_message r) \<le> length (data m)
     \<and> data (o_message r) = data m \<and> eof (o_message r) = eof m"
  by (auto simp: get_record_def Let_def split: if_splits)

text \<open>
  The loop \<^verbatim>\<open>while (get_record(message, &critical, &type, NULL, &length)) ;\<close> of
  \<^verbatim>\<open>check_message_format\<close>. The locals \<^verbatim>\<open>critical\<close>, \<^verbatim>\<open>type\<close> and \<^verbatim>\<open>length\<close> are
  not initialised in the C code: the triple \<open>loc\<close> is what they hold, at first any
  value, then what the last successful \<^verbatim>\<open>get_record\<close> wrote.
\<close>

function format_loop ::
  "NKE_Message \<Rightarrow> bool \<times> nat \<times> nat \<Rightarrow> NKE_Message \<times> bool \<times> nat \<times> nat" where
  "format_loop m loc =
     (case get_record m [] 0 of
        None \<Rightarrow> (m, loc)
      | Some r \<Rightarrow> format_loop (o_message r) (o_critical r, o_type r, o_body_length r))"
  by pat_completeness auto
termination
proof (relation "measure (\<lambda>(m, loc). length (data m) - parsed m)")
  show "wf (measure (\<lambda>(m, loc). length (data m) - parsed m))" by simp
next
  fix m :: NKE_Message and loc :: "bool \<times> nat \<times> nat" and r
  assume "get_record m [] 0 = Some r"
  from get_record_parsed [OF this]
  show "((o_message r, o_critical r, o_type r, o_body_length r), (m, loc))
          \<in> measure (\<lambda>(m, loc). length (data m) - parsed m)"
    by auto
qed

declare format_loop.simps [simp del]

definition check_message_format :: "bool \<times> nat \<times> nat \<Rightarrow> NKE_Message \<Rightarrow> NKE_Message \<times> NtsKeMsgFormat" where
  "check_message_format loc0 message =
     (case format_loop (reset_message_parsing message) loc0 of
        (m, critical, type, len) \<Rightarrow>
          (m,
           if length (data m) = 0 \<or> parsed m < length (data m)
           then (if eof m then MSG_ERROR else MSG_INCOMPLETE)
           else if \<not> critical \<or> type \<noteq> RECORD_END_OF_MESSAGE \<or> len \<noteq> 0
           then MSG_ERROR
           else MSG_OK))"

subsection \<open>The records of a byte string\<close>

text \<open>
  The spec's \<open>iterate\<close> (4.A): the \<open>(critical, type, body)\<close> tuples a byte string
  yields, read from its start, and the bytes left where iteration stops (fewer than 4
  bytes remain, or the declared body exceeds the remaining bytes). The code's cursor
  loop is compared with this list below.
\<close>

record ke_record =
  r_critical :: bool
  r_type :: nat
  r_body :: "byte list"

definition next_record :: "byte list \<Rightarrow> (ke_record \<times> byte list) option" where
  "next_record bs =
     (if length bs < 4 then None
      else
        let htype = ntohs (bs ! 0) (bs ! 1);
            blen = unat (ntohs (bs ! 2) (bs ! 3))
        in if length bs < 4 + blen then None
           else Some (\<lparr>r_critical = (htype AND 0x8000 \<noteq> 0),
                       r_type = unat (htype AND 0x7fff),
                       r_body = take blen (drop 4 bs)\<rparr>,
                      drop (4 + blen) bs))"

lemma next_record_shorter: "next_record bs = Some (r, rest) \<Longrightarrow> length rest < length bs"
  by (auto simp: next_record_def Let_def split: if_splits)

function records_of :: "byte list \<Rightarrow> ke_record list \<times> byte list" where
  "records_of bs =
     (case next_record bs of
        None \<Rightarrow> ([], bs)
      | Some (r, rest) \<Rightarrow> (case records_of rest of (rs, left) \<Rightarrow> (r # rs, left)))"
  by pat_completeness auto
termination
  by (relation "measure length") (auto dest: next_record_shorter)

declare records_of.simps [simp del]

lemma get_record_next:
  "get_record m body n =
     (case next_record (drop (parsed m) (data m)) of
        None \<Rightarrow> None
      | Some (r, rest) \<Rightarrow>
          Some \<lparr>o_message = m\<lparr>parsed := parsed m + 4 + length (r_body r)\<rparr>,
                o_critical = r_critical r, o_type = r_type r,
                o_body = take (min n (length (r_body r))) (r_body r)
                         @ drop (min n (length (r_body r))) body,
                o_body_length = length (r_body r)\<rparr>)"
proof (cases "length (data m) < parsed m + 4")
  case True
  then show ?thesis by (simp add: get_record_def next_record_def)
next
  case False
  define blen where "blen = unat (ntohs (data m ! (parsed m + 2)) (data m ! (parsed m + 3)))"
  have nth: "drop (parsed m) (data m) ! 0 = data m ! parsed m"
    "drop (parsed m) (data m) ! 1 = data m ! (parsed m + 1)"
    "drop (parsed m) (data m) ! 2 = data m ! (parsed m + 2)"
    "drop (parsed m) (data m) ! 3 = data m ! (parsed m + 3)"
    using False by simp_all
  show ?thesis
  proof (cases "length (data m) < parsed m + (4 + blen)")
    case True
    with False show ?thesis
      unfolding get_record_def next_record_def Let_def nth blen_def [symmetric]
      by auto
  next
    case enough: False
    then have len: "length (take blen (drop 4 (drop (parsed m) (data m)))) = blen"
      by simp
    from False enough show ?thesis
      unfolding get_record_def next_record_def Let_def nth blen_def [symmetric]
      by (simp add: len add.commute add.left_commute del: length_take length_drop drop_drop)
         (simp add: add.commute)
  qed
qed

lemma next_record_rest:
  "next_record bs = Some (r, rest) \<Longrightarrow> rest = drop (4 + length (r_body r)) bs \<and> 4 + length (r_body r) \<le> length bs"
  by (auto simp: next_record_def Let_def split: if_splits)

definition last_loc :: "bool \<times> nat \<times> nat \<Rightarrow> ke_record list \<Rightarrow> bool \<times> nat \<times> nat" where
  "last_loc loc rs = (if rs = [] then loc else (r_critical (last rs), r_type (last rs), length (r_body (last rs))))"

lemma format_loop_records:
  "parsed m \<le> length (data m) \<Longrightarrow>
   format_loop m loc =
     (case records_of (drop (parsed m) (data m)) of
        (rs, left) \<Rightarrow> (m\<lparr>parsed := length (data m) - length left\<rparr>, last_loc loc rs))"
proof (induction m loc rule: format_loop.induct)
  case (1 m loc)
  show ?case
  proof (cases "next_record (drop (parsed m) (data m))")
    case None
    then show ?thesis using "1.prems"
      by (subst format_loop.simps, subst records_of.simps) (simp add: get_record_next last_loc_def)
  next
    case (Some p)
    obtain r rest where p: "p = (r, rest)" by (cases p)
    from Some p have nr: "next_record (drop (parsed m) (data m)) = Some (r, rest)" by simp
    from next_record_rest [OF nr] have rest: "rest = drop (parsed m + 4 + length (r_body r)) (data m)"
      and le: "parsed m + 4 + length (r_body r) \<le> length (data m)"
      by (auto simp: add.commute add.left_commute)
    let ?r = "\<lparr>o_message = m\<lparr>parsed := parsed m + 4 + length (r_body r)\<rparr>,
                o_critical = r_critical r, o_type = r_type r,
                o_body = take (min 0 (length (r_body r))) (r_body r)
                         @ drop (min 0 (length (r_body r))) [],
                o_body_length = length (r_body r)\<rparr>"
    have gr: "get_record m [] 0 = Some ?r" using nr by (simp add: get_record_next)
    have ih: "format_loop (o_message ?r) (o_critical ?r, o_type ?r, o_body_length ?r) =
       (case records_of (drop (parsed (o_message ?r)) (data (o_message ?r))) of
        (rs, left) \<Rightarrow> ((o_message ?r)\<lparr>parsed := length (data (o_message ?r)) - length left\<rparr>,
           last_loc (o_critical ?r, o_type ?r, o_body_length ?r) rs))"
      by (rule "1.IH" [OF gr]) (use le in simp)
    show ?thesis
      apply (subst format_loop.simps)
      apply (subst records_of.simps)
      using gr ih nr rest le
      apply (simp add: last_loc_def split: prod.splits)
      done
  qed
qed


lemma records_of_left:
  "records_of bs = (rs, left) \<Longrightarrow> length left \<le> length bs \<and> (rs = [] \<longrightarrow> left = bs)"
proof (induction bs arbitrary: rs left rule: records_of.induct)
  case (1 bs)
  show ?case
  proof (cases "next_record bs")
    case None
    with "1.prems" show ?thesis by (subst (asm) records_of.simps) auto
  next
    case (Some p)
    obtain r rest where p: "p = (r, rest)" by (cases p)
    obtain rs' left' where rec: "records_of rest = (rs', left')" by (cases "records_of rest")
    from "1.IH" [OF Some p [symmetric] rec] have "length left' \<le> length rest" by simp
    moreover from next_record_shorter Some p have "length rest < length bs" by blast
    moreover from "1.prems" Some p rec have "left = left'" "rs = r # rs'"
      by (subst (asm) records_of.simps, simp)+
    ultimately show ?thesis by simp
  qed
qed

definition EoM :: ke_record where
  "EoM = \<lparr>r_critical = True, r_type = RECORD_END_OF_MESSAGE, r_body = []\<rparr>"

lemma check_message_format_records:
  "snd (check_message_format loc message) =
     (case records_of (data message) of
        (rs, left) \<Rightarrow>
          if data message = [] \<or> left \<noteq> []
          then (if eof message then MSG_ERROR else MSG_INCOMPLETE)
          else if last rs = EoM then MSG_OK else MSG_ERROR)"
proof -
  obtain rs left where rec: "records_of (data message) = (rs, left)"
    by (cases "records_of (data message)")
  from records_of_left [OF rec] have le: "length left \<le> length (data message)"
    and nil: "rs = [] \<longrightarrow> left = data message" by simp_all
  have fl: "format_loop (reset_message_parsing message) loc =
      (message\<lparr>parsed := length (data message) - length left\<rparr>, last_loc loc rs)"
    using format_loop_records [of "reset_message_parsing message" loc] rec
    by (simp add: reset_message_parsing_def)
  have eq: "last rs = EoM \<longleftrightarrow>
      r_critical (last rs) \<and> r_type (last rs) = RECORD_END_OF_MESSAGE \<and> r_body (last rs) = []"
    by (cases "last rs") (auto simp: EoM_def)
  show ?thesis
  proof (cases "data message = [] \<or> left \<noteq> []")
    case True
    have "left \<noteq> [] \<Longrightarrow> length (data message) - length left < length (data message)"
      using le by (cases left) auto
    with True show ?thesis
      by (cases "last_loc loc rs") (auto simp: check_message_format_def fl rec)
  next
    case False
    with nil have "rs \<noteq> []" by auto
    with False le show ?thesis
      by (auto simp: check_message_format_def fl rec last_loc_def eq)
  qed
qed

lemma records_of_Nil: "records_of [] = ([], [])"
  by (subst records_of.simps) (simp add: next_record_def)

lemma records_of_EoM: "records_of [0x80, 0, 0, 0] = ([EoM], [])"
  by (subst records_of.simps)
     (simp add: next_record_def ntohs_def EoM_def RECORD_END_OF_MESSAGE_def records_of_Nil)

subsection \<open>Encoding a vector of records\<close>

text \<open>
  The spec's \<open>encode(records)\<close>: \<^verbatim>\<open>add_record\<close> called once per record, in order,
  stopping at the first call that returns 0. \<open>wire r\<close> is the bytes one successful call
  appends, \<open>as_read r\<close> the tuple \<^verbatim>\<open>get_record\<close> reads back from them (a type above
  \<open>0x7fff\<close> loses its high bits to the critical flag).
\<close>

fun add_records :: "NKE_Message \<Rightarrow> ke_record list \<Rightarrow> NKE_Message option" where
  "add_records m [] = Some m"
| "add_records m (r # rs) =
     (case add_record m (r_critical r) (r_type r) (r_body r) of
        None \<Rightarrow> None
      | Some m' \<Rightarrow> add_records m' rs)"

definition wire :: "ke_record \<Rightarrow> byte list" where
  "wire r = htons (word_of_nat ((if r_critical r then 0x8000 else 0) OR r_type r))
            @ htons (word_of_nat (length (r_body r))) @ r_body r"

definition as_read :: "ke_record \<Rightarrow> ke_record" where
  "as_read r =
     (let htype = (word_of_nat ((if r_critical r then 0x8000 else 0) OR r_type r) :: 16 word)
      in \<lparr>r_critical = (htype AND 0x8000 \<noteq> 0), r_type = unat (htype AND 0x7fff),
          r_body = r_body r\<rparr>)"

lemma ntohs_htons: "htons w = [a, b] \<Longrightarrow> ntohs a b = w"
  unfolding htons_def ntohs_def
  by (auto intro!: bit_word_eqI simp: bit_simps)

lemma ntohs_htons_nth:
  "ntohs ((htons w @ bs) ! 0) ((htons w @ bs) ! 1) = w"
  using ntohs_htons [of w] by (simp add: htons_def)

lemma unat_length_16: "n \<le> 0xffff \<Longrightarrow> unat (word_of_nat n :: 16 word) = n"
  by (simp add: unat_of_nat)

lemma next_record_wire:
  assumes "length (r_body r) \<le> 0xffff"
  shows "next_record (wire r @ bs) = Some (as_read r, bs)"
proof -
  define t where "t = (word_of_nat ((if r_critical r then 0x8000 else 0) OR r_type r) :: 16 word)"
  define l where "l = (word_of_nat (length (r_body r)) :: 16 word)"
  have w: "wire r @ bs = htons t @ htons l @ r_body r @ bs"
    by (simp add: wire_def t_def l_def)
  have t: "ntohs ((wire r @ bs) ! 0) ((wire r @ bs) ! 1) = t"
    unfolding w by (rule ntohs_htons_nth)
  have l: "ntohs ((wire r @ bs) ! 2) ((wire r @ bs) ! 3) = l"
    unfolding w using ntohs_htons_nth [of l "r_body r @ bs"] by (simp add: htons_def)
  have ul: "unat l = length (r_body r)"
    unfolding l_def using assms by (rule unat_length_16)
  have len: "length (wire r) = 4 + length (r_body r)"
    by (simp add: wire_def htons_def)
  have d4: "drop 4 (wire r @ bs) = r_body r @ bs"
    unfolding w by (simp add: htons_def)
  have dall: "drop (4 + length (r_body r)) (wire r @ bs) = bs"
    using d4 by (metis append_eq_conv_conj drop_drop add.commute)
  show ?thesis
    unfolding next_record_def Let_def t l ul d4 dall
    by (simp add: len as_read_def Let_def t_def)
qed

lemma records_of_wire:
  assumes "length (r_body r) \<le> 0xffff"
  shows "records_of (wire r @ bs) = (case records_of bs of (rs, left) \<Rightarrow> (as_read r # rs, left))"
  by (subst records_of.simps) (simp add: next_record_wire [OF assms])

lemma records_of_concat_wire:
  "\<forall>r \<in> set rs. length (r_body r) \<le> 0xffff \<Longrightarrow>
   records_of (concat (map wire rs)) = (map as_read rs, [])"
proof (induction rs)
  case Nil
  show ?case by (simp add: records_of_Nil)
next
  case (Cons r rs)
  then show ?case by (simp add: records_of_wire)
qed

lemma add_record_wire:
  "add_record m (r_critical r) (r_type r) (r_body r) = Some m' \<Longrightarrow>
     m' = m\<lparr>data := data m @ wire r\<rparr> \<and> length (r_body r) \<le> 0xffff"
  by (auto simp: add_record_def wire_def split: if_splits)

lemma add_records_wire:
  "add_records m rs = Some m' \<Longrightarrow>
     m' = m\<lparr>data := data m @ concat (map wire rs)\<rparr> \<and> (\<forall>r \<in> set rs. length (r_body r) \<le> 0xffff)"
proof (induction rs arbitrary: m)
  case Nil
  then show ?case by simp
next
  case (Cons r rs)
  from Cons.prems obtain m1 where
    a: "add_record m (r_critical r) (r_type r) (r_body r) = Some m1" and
    b: "add_records m1 rs = Some m'"
    by (auto split: option.splits)
  from add_record_wire [OF a] have m1: "m1 = m\<lparr>data := data m @ wire r\<rparr>"
    and lr: "length (r_body r) \<le> 0xffff" by simp_all
  from Cons.IH [OF b] m1 lr show ?case by simp
qed

lemma add_records_fits:
  "length (data m) + sum_list (map (\<lambda>r. 4 + length (r_body r)) rs) \<le> MAX_MESSAGE_LENGTH \<Longrightarrow>
     \<exists>m'. add_records m rs = Some m'"
proof (induction rs arbitrary: m)
  case Nil
  show ?case by simp
next
  case (Cons r rs)
  from Cons.prems have fit: "length (data m) + 4 + length (r_body r) \<le> MAX_MESSAGE_LENGTH"
    by simp
  then have "length (r_body r) \<le> 0xffff" by (simp add: MAX_MESSAGE_LENGTH_def)
  with fit obtain m1 where a: "add_record m (r_critical r) (r_type r) (r_body r) = Some m1"
    by (auto simp: add_record_def)
  from add_record_wire [OF a] have "length (data m1) = length (data m) + 4 + length (r_body r)"
    by (simp add: wire_def htons_def)
  with Cons.prems have "length (data m1) + sum_list (map (\<lambda>r. 4 + length (r_body r)) rs) \<le> MAX_MESSAGE_LENGTH"
    by simp
  from Cons.IH [OF this] a show ?case by simp
qed

lemma as_read_EoM: "as_read EoM = EoM"
  by (simp add: as_read_def EoM_def RECORD_END_OF_MESSAGE_def)

section \<open>Request processing on the server (nts\_ke.c)\<close>

text \<open>
  \<^verbatim>\<open>process_request\<close>. The local array \<^verbatim>\<open>uint16_t data[MAX_RECORD_BODY_LENGTH / 2]\<close> is
  kept as its 256 bytes; it is not initialised in the C code, so its first content
  \<open>data0\<close> is a parameter. \<open>data16 d i\<close> is \<^verbatim>\<open>ntohs(data[i])\<close>, and \<open>offered d n v\<close>
  says that the loop \<^verbatim>\<open>for (i = 0; i < n; i++) if (ntohs(data[i]) == v)\<close> finds \<open>v\<close>.
  The function ends by calling \<^verbatim>\<open>prepare_response(inst, error, next_protocol,
  aead_algorithm)\<close> and returns 1: the model returns the message with its cursor and
  these three arguments.
\<close>

definition data16 :: "byte list \<Rightarrow> nat \<Rightarrow> 16 word" where
  "data16 d i = ntohs (d ! (2 * i)) (d ! (2 * i + 1))"

definition offered :: "byte list \<Rightarrow> nat \<Rightarrow> 16 word \<Rightarrow> bool" where
  "offered d n v = list_ex (\<lambda>i. data16 d i = v) [0..<n]"

record request_vars =
  q_data :: "byte list"
  q_error :: int
  q_next_protocol :: int
  q_aead_algorithm :: int
  q_has_next_protocol :: bool

definition request_switch :: "request_vars \<Rightarrow> bool \<Rightarrow> nat \<Rightarrow> nat \<Rightarrow> request_vars" where
  "request_switch v critical type len =
     (if type = RECORD_NEXT_PROTOCOL then
        (if \<not> critical \<or> len < 2 \<or> len mod 2 \<noteq> 0
         then v\<lparr>q_error := ERROR_BAD_REQUEST\<rparr>
         else v\<lparr>q_next_protocol :=
                   (if offered (q_data v) (min len MAX_RECORD_BODY_LENGTH div 2) 0
                    then NEXT_PROTOCOL_NTPV4 else q_next_protocol v),
                 q_has_next_protocol := True\<rparr>)
      else if type = RECORD_AEAD_ALGORITHM then
        (if len < 2 \<or> len mod 2 \<noteq> 0
         then v\<lparr>q_error := ERROR_BAD_REQUEST\<rparr>
         else v\<lparr>q_aead_algorithm :=
                   (if offered (q_data v) (min len MAX_RECORD_BODY_LENGTH div 2) 15
                    then AEAD_AES_SIV_CMAC_256 else q_aead_algorithm v)\<rparr>)
      else if type = RECORD_ERROR \<or> type = RECORD_WARNING \<or> type = RECORD_COOKIE then
        v\<lparr>q_error := ERROR_BAD_REQUEST\<rparr>
      else if type = RECORD_END_OF_MESSAGE then v
      else if critical then v\<lparr>q_error := ERROR_UNRECOGNIZED_CRITICAL_RECORD\<rparr>
      else v)"

function request_loop :: "NKE_Message \<Rightarrow> request_vars \<Rightarrow> NKE_Message \<times> request_vars" where
  "request_loop m v =
     (if q_error v \<noteq> ERROR_NONE then (m, v)
      else case get_record m (q_data v) MAX_RECORD_BODY_LENGTH of
             None \<Rightarrow> (m, v)
           | Some r \<Rightarrow>
               request_loop (o_message r)
                 (request_switch (v\<lparr>q_data := o_body r\<rparr>)
                    (o_critical r) (o_type r) (o_body_length r)))"
  by pat_completeness auto
termination
proof (relation "measure (\<lambda>(m, v). length (data m) - parsed m)")
  show "wf (measure (\<lambda>(m, v). length (data m) - parsed m))" by simp
next
  fix m :: NKE_Message and v :: request_vars and r
  assume "get_record m (q_data v) MAX_RECORD_BODY_LENGTH = Some r"
  from get_record_parsed [OF this]
  show "((o_message r, request_switch (v\<lparr>q_data := o_body r\<rparr>)
            (o_critical r) (o_type r) (o_body_length r)), (m, v))
          \<in> measure (\<lambda>(m, v). length (data m) - parsed m)"
    by auto
qed

declare request_loop.simps [simp del]

definition request_init :: "byte list \<Rightarrow> request_vars" where
  "request_init data0 =
     \<lparr>q_data = data0, q_error = ERROR_NONE, q_next_protocol = NEXT_PROTOCOL_NONE,
      q_aead_algorithm = AEAD_NONE, q_has_next_protocol = False\<rparr>"

record request_result =
  pr_message :: NKE_Message
  pr_error :: int
  pr_next_protocol :: int
  pr_aead_algorithm :: int

definition process_request :: "byte list \<Rightarrow> NKE_Message \<Rightarrow> request_result" where
  "process_request data0 message =
     (case request_loop (reset_message_parsing message) (request_init data0) of
        (m, v) \<Rightarrow>
          \<lparr>pr_message = m,
           pr_error = (if \<not> q_has_next_protocol v then ERROR_BAD_REQUEST else q_error v),
           pr_next_protocol = q_next_protocol v,
           pr_aead_algorithm = q_aead_algorithm v\<rparr>)"

text \<open>
  The same loop over the list of records: \<open>request_record\<close> is one iteration (the
  copy of the body into \<^verbatim>\<open>data\<close> by \<^verbatim>\<open>get_record\<close>, then the switch), and
  \<open>request_records\<close> stops as the \<^verbatim>\<open>while (error == ERROR_NONE)\<close> does.
\<close>

definition request_record :: "request_vars \<Rightarrow> ke_record \<Rightarrow> request_vars" where
  "request_record v r =
     request_switch
       (v\<lparr>q_data := take (min MAX_RECORD_BODY_LENGTH (length (r_body r))) (r_body r)
                     @ drop (min MAX_RECORD_BODY_LENGTH (length (r_body r))) (q_data v)\<rparr>)
       (r_critical r) (r_type r) (length (r_body r))"

fun request_records :: "request_vars \<Rightarrow> ke_record list \<Rightarrow> request_vars" where
  "request_records v [] = v"
| "request_records v (r # rs) =
     (if q_error v \<noteq> ERROR_NONE then v else request_records (request_record v r) rs)"

lemma records_of_unfold:
  "next_record bs = Some (r, rest) \<Longrightarrow> fst (records_of bs) = r # fst (records_of rest)"
  "next_record bs = None \<Longrightarrow> fst (records_of bs) = []"
  by (subst records_of.simps, simp split: prod.splits)+

lemma request_loop_records:
  "parsed m \<le> length (data m) \<Longrightarrow>
   snd (request_loop m v) = request_records v (fst (records_of (drop (parsed m) (data m))))"
proof (induction m v rule: request_loop.induct)
  case (1 m v)
  show ?case
  proof (cases "q_error v \<noteq> ERROR_NONE")
    case True
    then show ?thesis
      by (subst request_loop.simps) (cases "fst (records_of (drop (parsed m) (data m)))"; simp)
  next
    case noerr: False
    show ?thesis
    proof (cases "next_record (drop (parsed m) (data m))")
      case None
      with noerr show ?thesis
        by (subst request_loop.simps) (simp add: get_record_next records_of_unfold)
    next
      case (Some p)
      obtain r rest where p: "p = (r, rest)" by (cases p)
      from Some p have nr: "next_record (drop (parsed m) (data m)) = Some (r, rest)" by simp
      from next_record_rest [OF nr] have rest: "rest = drop (parsed m + 4 + length (r_body r)) (data m)"
        and le: "parsed m + 4 + length (r_body r) \<le> length (data m)"
        by (auto simp: add.commute add.left_commute)
      define ro where "ro = \<lparr>o_message = m\<lparr>parsed := parsed m + 4 + length (r_body r)\<rparr>,
          o_critical = r_critical r, o_type = r_type r,
          o_body = take (min MAX_RECORD_BODY_LENGTH (length (r_body r))) (r_body r)
                         @ drop (min MAX_RECORD_BODY_LENGTH (length (r_body r))) (q_data v),
          o_body_length = length (r_body r)\<rparr>"
      have gr: "get_record m (q_data v) MAX_RECORD_BODY_LENGTH = Some ro"
        using nr by (simp add: get_record_next ro_def)
      have ro: "o_message ro = m\<lparr>parsed := parsed m + 4 + length (r_body r)\<rparr>"
          "o_critical ro = r_critical r" "o_type ro = r_type r"
          "o_body ro = take (min MAX_RECORD_BODY_LENGTH (length (r_body r))) (r_body r)
                         @ drop (min MAX_RECORD_BODY_LENGTH (length (r_body r))) (q_data v)"
          "o_body_length ro = length (r_body r)"
        by (simp_all add: ro_def)
      have ih: "snd (request_loop (o_message ro)
                 (request_switch (v\<lparr>q_data := o_body ro\<rparr>)
                    (o_critical ro) (o_type ro) (o_body_length ro))) =
          request_records (request_switch (v\<lparr>q_data := o_body ro\<rparr>)
                    (o_critical ro) (o_type ro) (o_body_length ro))
            (fst (records_of (drop (parsed (o_message ro)) (data (o_message ro)))))"
        using noerr gr le by (intro "1.IH") (simp_all add: ro)
      show ?thesis
        apply (subst request_loop.simps)
        using noerr gr ih
        apply (simp add: records_of_unfold(1) [OF nr] request_record_def ro rest)
        done
    qed
  qed
qed

lemma process_request_records:
  "pr_error (process_request data0 message) =
     (let v = request_records (request_init data0) (fst (records_of (data message)))
      in if \<not> q_has_next_protocol v then ERROR_BAD_REQUEST else q_error v)"
proof -
  obtain m v where l: "request_loop (reset_message_parsing message) (request_init data0) = (m, v)"
    by (cases "request_loop (reset_message_parsing message) (request_init data0)")
  from request_loop_records [of "reset_message_parsing message" "request_init data0"] l
  have "v = request_records (request_init data0) (fst (records_of (data message)))"
    by (simp add: reset_message_parsing_def)
  with l show ?thesis by (simp add: process_request_def Let_def)
qed

lemma request_records_stuck: "q_error v \<noteq> ERROR_NONE \<Longrightarrow> request_records v rs = v"
  by (cases rs) simp_all

lemma request_records_append:
  "request_records v (xs @ ys) = request_records (request_records v xs) ys"
proof (induction xs arbitrary: v)
  case Nil
  show ?case by simp
next
  case (Cons x xs)
  then show ?case by (simp add: request_records_stuck)
qed

lemma request_record_has_np:
  "q_has_next_protocol (request_record v r) \<Longrightarrow> q_has_next_protocol v \<or> r_type r = RECORD_NEXT_PROTOCOL"
  by (auto simp: request_record_def request_switch_def split: if_splits)

lemma request_record_np_accepted:
  "q_error (request_record v r) = ERROR_NONE \<Longrightarrow> r_type r = RECORD_NEXT_PROTOCOL \<Longrightarrow>
     q_has_next_protocol (request_record v r)"
  by (auto simp: request_record_def request_switch_def ERROR_NONE_def ERROR_BAD_REQUEST_def
      split: if_splits)

lemma request_record_keeps_np:
  "q_has_next_protocol v \<Longrightarrow> q_has_next_protocol (request_record v r)"
  by (auto simp: request_record_def request_switch_def)

lemma request_records_has_np:
  "q_has_next_protocol (request_records v rs) \<Longrightarrow>
     q_has_next_protocol v \<or> (\<exists>x \<in> set rs. r_type x = RECORD_NEXT_PROTOCOL)"
proof (induction rs arbitrary: v)
  case Nil
  then show ?case by simp
next
  case (Cons r rs)
  show ?case
  proof (cases "q_error v \<noteq> ERROR_NONE")
    case True
    with Cons.prems show ?thesis by simp
  next
    case False
    with Cons.prems have "q_has_next_protocol (request_records (request_record v r) rs)" by simp
    from Cons.IH [OF this] request_record_has_np [of v r] show ?thesis by auto
  qed
qed

lemma request_records_np_seen:
  "q_error (request_records v rs) = ERROR_NONE \<Longrightarrow>
     q_has_next_protocol (request_records v rs)
       = (q_has_next_protocol v \<or> (\<exists>x \<in> set rs. r_type x = RECORD_NEXT_PROTOCOL))"
proof (induction rs arbitrary: v)
  case Nil
  show ?case by simp
next
  case (Cons r rs)
  from Cons.prems have v: "q_error v = ERROR_NONE"
    by (cases "q_error v = ERROR_NONE") simp_all
  with Cons.prems have e: "q_error (request_records (request_record v r) rs) = ERROR_NONE"
    by simp
  have e1: "q_error (request_record v r) = ERROR_NONE"
    using e request_records_stuck [of "request_record v r" rs]
    by (cases "q_error (request_record v r) = ERROR_NONE") simp_all
  from Cons.IH [OF e] v request_record_has_np [of v r] request_record_np_accepted [OF e1]
    request_record_keeps_np [of v r]
  show ?case by auto
qed

section \<open>Response processing on the client (nts\_ke.c)\<close>

text \<open>
  \<^verbatim>\<open>NKE_Cookie\<close> is declared in nts\_ke.h, which is not among the sources: a length and
  an array of \<^verbatim>\<open>NKE_MAX_COOKIE_LENGTH\<close> bytes. The constant is the parameter \<open>mcl\<close> of
  the functions below.

  \<^verbatim>\<open>process_response\<close>. The local array
  \<^verbatim>\<open>uint16_t data[NKE_MAX_COOKIE_LENGTH / sizeof (uint16_t)]\<close> holds \<open>2 * (mcl div 2)\<close>
  bytes and starts with any content \<open>data0\<close>. The caller's array \<^verbatim>\<open>cookies\<close> is a list
  written by index. A null \<^verbatim>\<open>addr\<close> or \<^verbatim>\<open>port\<close> pointer is \<open>None\<close>, a pointer to a
  variable is \<open>Some\<close> of its content. The parameter \<open>string_to_ip\<close> stands for the
  library calls in the NTPv4-Server case: given the array and \<^verbatim>\<open>length\<close> it is \<open>None\<close>
  when \<^verbatim>\<open>snprintf(buf, length + 1, "%s", data) >= sizeof (buf) || !UTI_StringToIP(buf, &a)\<close>
  holds, and \<open>Some a\<close> otherwise. The record \<open>response_result\<close> gives the return value
  with what the caller's variables and the locals \<^verbatim>\<open>num_cookies\<close> and \<^verbatim>\<open>error\<close> hold at
  the end.
\<close>

record NKE_Cookie =
  c_length :: nat
  cookie :: "byte list"

record 'a response_vars =
  p_data :: "byte list"
  p_error :: int
  p_next_protocol :: int
  p_aead_algorithm :: int
  p_num_cookies :: nat
  p_cookies :: "NKE_Cookie list"
  p_addr :: "'a option"
  p_port :: "nat option"

definition response_switch ::
  "nat \<Rightarrow> (byte list \<Rightarrow> nat \<Rightarrow> 'a option) \<Rightarrow> nat \<Rightarrow> 'a response_vars \<Rightarrow> bool \<Rightarrow> nat \<Rightarrow> nat
     \<Rightarrow> 'a response_vars" where
  "response_switch mcl string_to_ip max_cookies v critical type len =
     (if type = RECORD_NEXT_PROTOCOL then
        (if \<not> critical \<or> len \<noteq> 2 \<or> data16 (p_data v) 0 \<noteq> 0
         then v\<lparr>p_error := ERROR_BAD_RESPONSE\<rparr>
         else v\<lparr>p_next_protocol := NEXT_PROTOCOL_NTPV4\<rparr>)
      else if type = RECORD_AEAD_ALGORITHM then
        (if len \<noteq> 2 \<or> data16 (p_data v) 0 \<noteq> 15
         then v\<lparr>p_error := ERROR_BAD_RESPONSE, p_aead_algorithm := AEAD_AES_SIV_CMAC_256\<rparr>
         else v\<lparr>p_aead_algorithm := AEAD_AES_SIV_CMAC_256\<rparr>)
      else if type = RECORD_ERROR then v\<lparr>p_error := ERROR_BAD_RESPONSE\<rparr>
      else if type = RECORD_WARNING then v\<lparr>p_error := ERROR_BAD_RESPONSE\<rparr>
      else if type = RECORD_COOKIE then
        (if len \<le> mcl \<and> p_num_cookies v < max_cookies
         then v\<lparr>p_cookies := (p_cookies v)
                   [p_num_cookies v :=
                      (p_cookies v ! p_num_cookies v)
                        \<lparr>c_length := len,
                         cookie := take len (p_data v)
                                   @ drop len (cookie (p_cookies v ! p_num_cookies v))\<rparr>],
                 p_num_cookies := p_num_cookies v + 1\<rparr>
         else v)
      else if type = RECORD_END_OF_MESSAGE then v
      else if type = RECORD_NTPV4_SERVER_NEGOTIATION then
        (if len < 2 then v\<lparr>p_error := ERROR_BAD_RESPONSE\<rparr>
         else if len \<ge> MAX_RECORD_BODY_LENGTH + 1 then v\<lparr>p_error := ERROR_BAD_RESPONSE\<rparr>
         else case string_to_ip (p_data v) len of
                None \<Rightarrow> v\<lparr>p_error := ERROR_BAD_RESPONSE\<rparr>
              | Some a \<Rightarrow> (if p_addr v \<noteq> None then v\<lparr>p_addr := Some a\<rparr> else v))
      else if type = RECORD_NTPV4_PORT_NEGOTIATION then
        (if len \<noteq> 2 then v\<lparr>p_error := ERROR_BAD_RESPONSE\<rparr>
         else if p_port v \<noteq> None then v\<lparr>p_port := Some (unat (data16 (p_data v) 0))\<rparr>
         else v)
      else if critical then v\<lparr>p_error := 1\<rparr>
      else v)"

function response_loop ::
  "nat \<Rightarrow> (byte list \<Rightarrow> nat \<Rightarrow> 'a option) \<Rightarrow> nat \<Rightarrow> NKE_Message \<Rightarrow> 'a response_vars
     \<Rightarrow> NKE_Message \<times> 'a response_vars" where
  "response_loop mcl string_to_ip max_cookies m v =
     (if p_error v \<noteq> ERROR_NONE then (m, v)
      else case get_record m (p_data v) (2 * (mcl div 2)) of
             None \<Rightarrow> (m, v)
           | Some r \<Rightarrow>
               response_loop mcl string_to_ip max_cookies (o_message r)
                 (response_switch mcl string_to_ip max_cookies (v\<lparr>p_data := o_body r\<rparr>)
                    (o_critical r) (o_type r) (o_body_length r)))"
  by pat_completeness auto
termination
proof (relation "measure (\<lambda>(mcl, f, mc, m, v). length (data m) - parsed m)")
  show "wf (measure (\<lambda>(mcl, f :: byte list \<Rightarrow> nat \<Rightarrow> 'a option, mc :: nat, m, v :: 'a response_vars).
              length (data m) - parsed m))" by simp
next
  fix mcl max_cookies :: nat and string_to_ip :: "byte list \<Rightarrow> nat \<Rightarrow> 'a option"
    and m :: NKE_Message and v :: "'a response_vars" and r
  assume "get_record m (p_data v) (2 * (mcl div 2)) = Some r"
  from get_record_parsed [OF this]
  show "((mcl, string_to_ip, max_cookies, o_message r,
          response_switch mcl string_to_ip max_cookies (v\<lparr>p_data := o_body r\<rparr>)
            (o_critical r) (o_type r) (o_body_length r)),
         (mcl, string_to_ip, max_cookies, m, v))
          \<in> measure (\<lambda>(mcl, f, mc, m, v). length (data m) - parsed m)"
    by auto
qed

declare response_loop.simps [simp del]

record 'a response_result =
  ps_message :: NKE_Message
  ps_cookies :: "NKE_Cookie list"
  ps_addr :: "'a option"
  ps_port :: "nat option"
  ps_num_cookies :: nat
  ps_error :: int
  ps_return :: nat

definition process_response ::
  "nat \<Rightarrow> (byte list \<Rightarrow> nat \<Rightarrow> 'a option) \<Rightarrow> byte list \<Rightarrow> NKE_Message \<Rightarrow> NKE_Cookie list \<Rightarrow> nat
     \<Rightarrow> 'a option \<Rightarrow> nat option \<Rightarrow> 'a response_result" where
  "process_response mcl string_to_ip data0 message cookies max_cookies addr port =
     (case response_loop mcl string_to_ip max_cookies (reset_message_parsing message)
             \<lparr>p_data = data0, p_error = ERROR_NONE, p_next_protocol = NEXT_PROTOCOL_NONE,
              p_aead_algorithm = AEAD_NONE, p_num_cookies = 0, p_cookies = cookies,
              p_addr = addr, p_port = port\<rparr> of
        (m, v) \<Rightarrow>
          \<lparr>ps_message = m, ps_cookies = p_cookies v, ps_addr = p_addr v, ps_port = p_port v,
           ps_num_cookies = p_num_cookies v, ps_error = p_error v,
           ps_return =
             (if p_next_protocol v \<noteq> NEXT_PROTOCOL_NTPV4
                 \<or> p_aead_algorithm v \<noteq> AEAD_AES_SIV_CMAC_256
                 \<or> p_error v \<noteq> ERROR_NONE
              then 0 else p_num_cookies v)\<rparr>)"

definition response_record ::
  "nat \<Rightarrow> (byte list \<Rightarrow> nat \<Rightarrow> 'a option) \<Rightarrow> nat \<Rightarrow> 'a response_vars \<Rightarrow> ke_record \<Rightarrow> 'a response_vars" where
  "response_record mcl string_to_ip max_cookies v r =
     response_switch mcl string_to_ip max_cookies
       (v\<lparr>p_data := take (min (2 * (mcl div 2)) (length (r_body r))) (r_body r)
                     @ drop (min (2 * (mcl div 2)) (length (r_body r))) (p_data v)\<rparr>)
       (r_critical r) (r_type r) (length (r_body r))"

fun response_records ::
  "nat \<Rightarrow> (byte list \<Rightarrow> nat \<Rightarrow> 'a option) \<Rightarrow> nat \<Rightarrow> 'a response_vars \<Rightarrow> ke_record list \<Rightarrow> 'a response_vars" where
  "response_records mcl f mc v [] = v"
| "response_records mcl f mc v (r # rs) =
     (if p_error v \<noteq> ERROR_NONE then v
      else response_records mcl f mc (response_record mcl f mc v r) rs)"

lemma response_loop_records:
  "parsed m \<le> length (data m) \<Longrightarrow>
   snd (response_loop mcl f mc m v)
     = response_records mcl f mc v (fst (records_of (drop (parsed m) (data m))))"
proof (induction mcl f mc m v rule: response_loop.induct)
  case (1 mcl f mc m v)
  show ?case
  proof (cases "p_error v \<noteq> ERROR_NONE")
    case True
    then show ?thesis
      by (subst response_loop.simps) (cases "fst (records_of (drop (parsed m) (data m)))"; simp)
  next
    case noerr: False
    show ?thesis
    proof (cases "next_record (drop (parsed m) (data m))")
      case None
      with noerr show ?thesis
        by (subst response_loop.simps) (simp add: get_record_next records_of_unfold)
    next
      case (Some p)
      obtain r rest where p: "p = (r, rest)" by (cases p)
      from Some p have nr: "next_record (drop (parsed m) (data m)) = Some (r, rest)" by simp
      from next_record_rest [OF nr] have rest: "rest = drop (parsed m + 4 + length (r_body r)) (data m)"
        and le: "parsed m + 4 + length (r_body r) \<le> length (data m)"
        by (auto simp: add.commute add.left_commute)
      define ro where "ro = \<lparr>o_message = m\<lparr>parsed := parsed m + 4 + length (r_body r)\<rparr>,
          o_critical = r_critical r, o_type = r_type r,
          o_body = take (min (2 * (mcl div 2)) (length (r_body r))) (r_body r)
                         @ drop (min (2 * (mcl div 2)) (length (r_body r))) (p_data v),
          o_body_length = length (r_body r)\<rparr>"
      have gr: "get_record m (p_data v) (2 * (mcl div 2)) = Some ro"
        using nr by (simp add: get_record_next ro_def)
      have ro: "o_message ro = m\<lparr>parsed := parsed m + 4 + length (r_body r)\<rparr>"
          "o_critical ro = r_critical r" "o_type ro = r_type r"
          "o_body ro = take (min (2 * (mcl div 2)) (length (r_body r))) (r_body r)
                         @ drop (min (2 * (mcl div 2)) (length (r_body r))) (p_data v)"
          "o_body_length ro = length (r_body r)"
        by (simp_all add: ro_def)
      have ih: "snd (response_loop mcl f mc (o_message ro)
                 (response_switch mcl f mc (v\<lparr>p_data := o_body ro\<rparr>)
                    (o_critical ro) (o_type ro) (o_body_length ro))) =
          response_records mcl f mc (response_switch mcl f mc (v\<lparr>p_data := o_body ro\<rparr>)
                    (o_critical ro) (o_type ro) (o_body_length ro))
            (fst (records_of (drop (parsed (o_message ro)) (data (o_message ro)))))"
        using noerr gr le by (intro "1.IH") (simp_all add: ro)
      show ?thesis
        apply (subst response_loop.simps)
        using noerr gr ih
        apply (simp add: records_of_unfold(1) [OF nr] response_record_def ro rest)
        done
    qed
  qed
qed


definition response_init :: "byte list \<Rightarrow> NKE_Cookie list \<Rightarrow> 'a option \<Rightarrow> nat option \<Rightarrow> 'a response_vars" where
  "response_init data0 cookies addr port =
     \<lparr>p_data = data0, p_error = ERROR_NONE, p_next_protocol = NEXT_PROTOCOL_NONE,
      p_aead_algorithm = AEAD_NONE, p_num_cookies = 0, p_cookies = cookies,
      p_addr = addr, p_port = port\<rparr>"

lemma process_response_records:
  "process_response mcl f data0 message cookies mc addr port =
     (let v = response_records mcl f mc (response_init data0 cookies addr port)
                (fst (records_of (data message)))
      in \<lparr>ps_message = fst (response_loop mcl f mc (reset_message_parsing message)
                               (response_init data0 cookies addr port)),
          ps_cookies = p_cookies v, ps_addr = p_addr v, ps_port = p_port v,
          ps_num_cookies = p_num_cookies v, ps_error = p_error v,
          ps_return =
             (if p_next_protocol v \<noteq> NEXT_PROTOCOL_NTPV4
                 \<or> p_aead_algorithm v \<noteq> AEAD_AES_SIV_CMAC_256
                 \<or> p_error v \<noteq> ERROR_NONE
              then 0 else p_num_cookies v)\<rparr>)"
proof -
  obtain m v where l: "response_loop mcl f mc (reset_message_parsing message)
      (response_init data0 cookies addr port) = (m, v)"
    by (cases "response_loop mcl f mc (reset_message_parsing message)
      (response_init data0 cookies addr port)")
  from response_loop_records [of "reset_message_parsing message" mcl f mc
      "response_init data0 cookies addr port"] l
  have "v = response_records mcl f mc (response_init data0 cookies addr port)
      (fst (records_of (data message)))"
    by (simp add: reset_message_parsing_def)
  with l show ?thesis
    by (simp add: process_response_def Let_def response_init_def [symmetric])
qed

definition cookies_inv :: "nat \<Rightarrow> nat \<Rightarrow> NKE_Cookie list \<Rightarrow> 'a response_vars \<Rightarrow> bool" where
  "cookies_inv mcl mc cookies v \<longleftrightarrow>
     p_num_cookies v \<le> mc
     \<and> length (p_cookies v) = length cookies
     \<and> (\<forall>i < p_num_cookies v. c_length (p_cookies v ! i) \<le> mcl)
     \<and> (\<forall>i \<ge> mc. p_cookies v ! i = cookies ! i)"

lemma response_switch_other:
  "t \<noteq> RECORD_COOKIE \<Longrightarrow>
     p_cookies (response_switch mcl f mc v c t len) = p_cookies v
     \<and> p_num_cookies (response_switch mcl f mc v c t len) = p_num_cookies v"
  by (simp add: response_switch_def split: option.splits)

lemma response_switch_cookie:
  "response_switch mcl f mc v c RECORD_COOKIE len =
     (if len \<le> mcl \<and> p_num_cookies v < mc
      then v\<lparr>p_cookies := (p_cookies v)
                   [p_num_cookies v :=
                      (p_cookies v ! p_num_cookies v)
                        \<lparr>c_length := len,
                         cookie := take len (p_data v)
                                   @ drop len (cookie (p_cookies v ! p_num_cookies v))\<rparr>],
              p_num_cookies := p_num_cookies v + 1\<rparr>
      else v)"
  by (simp add: response_switch_def RECORD_COOKIE_def RECORD_NEXT_PROTOCOL_def
      RECORD_AEAD_ALGORITHM_def RECORD_ERROR_def RECORD_WARNING_def)

lemma response_switch_cases:
  "response_switch mcl f mc v c t len = w \<Longrightarrow>
     (p_cookies w = p_cookies v \<and> p_num_cookies w = p_num_cookies v)
     \<or> (t = RECORD_COOKIE \<and> len \<le> mcl \<and> p_num_cookies v < mc
        \<and> p_num_cookies w = p_num_cookies v + 1
        \<and> p_cookies w = (p_cookies v)
              [p_num_cookies v :=
                 (p_cookies v ! p_num_cookies v)
                   \<lparr>c_length := len,
                    cookie := take len (p_data v)
                              @ drop len (cookie (p_cookies v ! p_num_cookies v))\<rparr>])"
proof (cases "t = RECORD_COOKIE")
  case True
  assume "response_switch mcl f mc v c t len = w"
  with True show ?thesis
    by (cases "len \<le> mcl \<and> p_num_cookies v < mc") (auto simp: response_switch_cookie)
next
  case False
  assume "response_switch mcl f mc v c t len = w"
  with response_switch_other [OF False, of mcl f mc v c len] show ?thesis by simp
qed

lemma cookies_inv_record:
  assumes room: "mc \<le> length cookies" and inv: "cookies_inv mcl mc cookies v"
  shows "cookies_inv mcl mc cookies (response_record mcl f mc v r)"
proof -
  define u where "u = v\<lparr>p_data := take (min (2 * (mcl div 2)) (length (r_body r))) (r_body r)
                     @ drop (min (2 * (mcl div 2)) (length (r_body r))) (p_data v)\<rparr>"
  define w where "w = response_record mcl f mc v r"
  have w: "response_switch mcl f mc u (r_critical r) (r_type r) (length (r_body r)) = w"
    by (simp add: w_def response_record_def u_def)
  have u: "p_cookies u = p_cookies v" "p_num_cookies u = p_num_cookies v"
    by (simp_all add: u_def)
  from response_switch_cases [OF w] show ?thesis
  proof
    assume "p_cookies w = p_cookies u \<and> p_num_cookies w = p_num_cookies u"
    with inv u show ?thesis by (simp add: cookies_inv_def w_def [symmetric])
  next
    assume a: "r_type r = RECORD_COOKIE \<and> length (r_body r) \<le> mcl \<and> p_num_cookies u < mc
        \<and> p_num_cookies w = p_num_cookies u + 1
        \<and> p_cookies w = (p_cookies u)
              [p_num_cookies u :=
                 (p_cookies u ! p_num_cookies u)
                   \<lparr>c_length := length (r_body r),
                    cookie := take (length (r_body r)) (p_data u)
                              @ drop (length (r_body r)) (cookie (p_cookies u ! p_num_cookies u))\<rparr>]"
    from inv have n: "p_num_cookies v \<le> mc" and l: "length (p_cookies v) = length cookies"
      and b: "\<forall>i < p_num_cookies v. c_length (p_cookies v ! i) \<le> mcl"
      and k: "\<forall>i \<ge> mc. p_cookies v ! i = cookies ! i"
      by (simp_all add: cookies_inv_def)
    from a u room l have lt: "p_num_cookies v < length (p_cookies v)" by simp
    have "\<forall>i < p_num_cookies w. c_length (p_cookies w ! i) \<le> mcl"
    proof (intro allI impI)
      fix i assume "i < p_num_cookies w"
      with a u have "i < p_num_cookies v \<or> i = p_num_cookies v" by auto
      then show "c_length (p_cookies w ! i) \<le> mcl"
        using a u b lt by (auto simp: nth_list_update)
    qed
    moreover have "\<forall>i \<ge> mc. p_cookies w ! i = cookies ! i"
      using a u k by (auto simp: nth_list_update)
    ultimately show ?thesis
      using a u l by (simp add: cookies_inv_def w_def [symmetric])
  qed
qed

lemma cookies_inv_records:
  "mc \<le> length cookies \<Longrightarrow> cookies_inv mcl mc cookies v \<Longrightarrow>
     cookies_inv mcl mc cookies (response_records mcl f mc v rs)"
  by (induction rs arbitrary: v) (simp_all add: cookies_inv_record)

lemma cookie_skipped:
  "r_type r = RECORD_COOKIE \<Longrightarrow> mcl < length (r_body r) \<or> mc \<le> p_num_cookies v \<Longrightarrow>
     response_record mcl f mc v r =
       v\<lparr>p_data := take (min (2 * (mcl div 2)) (length (r_body r))) (r_body r)
                     @ drop (min (2 * (mcl div 2)) (length (r_body r))) (p_data v)\<rparr>"
  by (auto simp: response_record_def response_switch_cookie)

section \<open>Server keys and cookies (nts\_ke.c)\<close>

text \<open>
  \<^verbatim>\<open>ServerKey\<close> and the ring \<^verbatim>\<open>server_keys[MAX_SERVER_KEYS]\<close> with
  \<^verbatim>\<open>current_server_key\<close>. The SIV context of a key is kept as the 32 bytes it was
  set from. \<^verbatim>\<open>generate_server_key\<close> draws the key and the raw id from the random
  source: they are the parameters \<open>rand_key\<close> and \<open>rand_id\<close>. The index
  \<^verbatim>\<open>(current_server_key + 1) % MAX_SERVER_KEYS\<close> is computed in \<^verbatim>\<open>unsigned\<close>
  arithmetic; the index stays in 0..3 and is a \<open>nat\<close>.
\<close>

text \<open>
  \<^verbatim>\<open>ServerCookie\<close> overlays the bytes of an \<^verbatim>\<open>NKE_Cookie\<close>: \<^verbatim>\<open>key_id\<close> in bytes 0..3,
  \<^verbatim>\<open>nonce\<close> in bytes 4..19, \<^verbatim>\<open>ciphertext\<close> in bytes 20..99, so
  \<^verbatim>\<open>sizeof (ServerCookie)\<close> is 100. The C code stores and loads \<^verbatim>\<open>key_id\<close> in host
  byte order through the cast pointer; \<open>store_u32\<close> and \<open>load_u32\<close> take it to be
  little-endian.

  \<^verbatim>\<open>NKE_Key\<close> (nts\_ke.h, not among the sources) is a length and a key array, of
  which the code here uses the first 32 bytes. The AES-SIV-CMAC primitive belongs to
  an external library: \<open>siv_encrypt key nonce adata plaintext\<close> and
  \<open>siv_decrypt key nonce adata ciphertext\<close> are parameters, the latter \<open>None\<close> when
  the tag does not verify. The nonce drawn by \<^verbatim>\<open>UTI_GetRandomBytes\<close> is the parameter
  \<open>nonce\<close>. \<open>None\<close> from \<open>NKE_GenerateCookie\<close> is a failed \<^verbatim>\<open>assert\<close> (the first one
  compares \<^verbatim>\<open>sizeof (nke_cookie->cookie)\<close>, the constant \<open>mcl\<close>, with 100); \<open>None\<close> from
  \<open>NKE_DecodeCookie\<close> is the return value 0.
\<close>

definition MAX_SERVER_KEYS :: nat where "MAX_SERVER_KEYS = 4"

record ServerKey =
  k_id :: "32 word"
  k_siv :: "byte list"

record key_ring =
  server_keys :: "ServerKey list"
  current_server_key :: nat

definition generate_server_key :: "byte list \<Rightarrow> 32 word \<Rightarrow> key_ring \<Rightarrow> key_ring" where
  "generate_server_key rand_key rand_id ring =
     (let cur = (current_server_key ring + 1) mod MAX_SERVER_KEYS
      in ring\<lparr>current_server_key := cur,
              server_keys := (server_keys ring)
                [cur := \<lparr>k_id = (rand_id AND push_bit 2 (- 1)) OR word_of_nat cur,
                         k_siv = rand_key\<rparr>]\<rparr>)"

definition store_u32 :: "32 word \<Rightarrow> byte list" where
  "store_u32 w = [ucast w, ucast (drop_bit 8 w), ucast (drop_bit 16 w), ucast (drop_bit 24 w)]"

definition load_u32 :: "byte list \<Rightarrow> 32 word" where
  "load_u32 bs = ucast (bs ! 0) OR push_bit 8 (ucast (bs ! 1))
                 OR push_bit 16 (ucast (bs ! 2)) OR push_bit 24 (ucast (bs ! 3))"

lemma store_u32_nth:
  "(store_u32 w @ bs) ! 0 = ucast w"
  "(store_u32 w @ bs) ! 1 = ucast (drop_bit 8 w)"
  "(store_u32 w @ bs) ! 2 = ucast (drop_bit 16 w)"
  "(store_u32 w @ bs) ! 3 = ucast (drop_bit 24 w)"
  by (simp_all add: store_u32_def)

lemma load_store_u32: "load_u32 (store_u32 w @ bs) = w"
  unfolding load_u32_def store_u32_nth
proof (rule bit_word_eqI)
  fix n assume "n < LENGTH(32)"
  then have n: "n < 32" by simp
  consider "n < 8" | "8 \<le> n" "n < 16" | "16 \<le> n" "n < 24" | "24 \<le> n" "n < 32"
    using n by linarith
  then show "bit (ucast (ucast w :: byte) OR push_bit 8 (ucast (ucast (drop_bit 8 w) :: byte))
                 OR push_bit 16 (ucast (ucast (drop_bit 16 w) :: byte))
                 OR push_bit 24 (ucast (ucast (drop_bit 24 w) :: byte)) :: 32 word) n = bit w n"
    by cases (auto simp: bit_simps)
qed

lemma low_bits_cleared: "(rand_id AND push_bit 2 (- 1) :: 32 word) AND 3 = 0"
proof (rule bit_word_eqI)
  fix n assume "n < LENGTH(32)"
  then have "bit (3 :: 32 word) n \<longleftrightarrow> n < 2"
    using bit_mask_iff [of 2 n, where ?'a = "32 word"] by (simp add: mask_eq_exp_minus_1)
  then show "bit ((rand_id AND push_bit 2 (- 1)) AND 3 :: 32 word) n = bit (0 :: 32 word) n"
    by (auto simp: bit_simps)
qed

lemma key_id_low_bits:
  assumes "cur < 4"
  shows "((rand_id AND push_bit 2 (- 1)) OR word_of_nat cur :: 32 word) AND 3 = word_of_nat cur"
    and "unat ((rand_id AND push_bit 2 (- 1)) OR word_of_nat cur :: 32 word) mod 4 = cur"
proof -
  let ?w = "(rand_id AND push_bit 2 (- 1)) OR word_of_nat cur :: 32 word"
  from assms consider "cur = 0" | "cur = 1" | "cur = 2" | "cur = 3" by linarith
  then have c: "(word_of_nat cur :: 32 word) AND 3 = word_of_nat cur"
    by cases simp_all
  show a: "?w AND 3 = word_of_nat cur"
    unfolding bit.conj_disj_distrib2 low_bits_cleared c by simp
  have m: "(3 :: 32 word) = mask 2" by (simp add: mask_eq_exp_minus_1)
  have "unat (?w AND 3) = unat (take_bit 2 ?w)"
    unfolding m by (simp only: take_bit_eq_mask)
  also have "\<dots> = unat ?w mod 4"
    by (simp add: take_bit_eq_mod unat_mod)
  finally have "unat ?w mod 4 = unat (?w AND 3)" by simp
  also have "\<dots> = cur" unfolding a using assms by (simp add: unat_of_nat)
  finally show "unat ?w mod 4 = cur" .
qed


record NKE_Key =
  k_length :: nat
  key :: "byte list"

definition NKE_GenerateCookie ::
  "nat \<Rightarrow> (byte list \<Rightarrow> byte list \<Rightarrow> byte list \<Rightarrow> byte list \<Rightarrow> byte list)
     \<Rightarrow> key_ring \<Rightarrow> byte list \<Rightarrow> NKE_Key \<Rightarrow> NKE_Key \<Rightarrow> NKE_Cookie \<Rightarrow> NKE_Cookie option" where
  "NKE_GenerateCookie mcl siv_encrypt ring nonce c2s s2c nke_cookie =
     (let k = server_keys ring ! current_server_key ring
      in if mcl < 100 then None
         else if k_length c2s \<noteq> 32 then None
         else if k_length s2c \<noteq> 32 then None
         else
           let plaintext = take 32 (key c2s) @ take 32 (key s2c)
           in Some (nke_cookie
                \<lparr>c_length := 100,
                 cookie := store_u32 (k_id k) @ nonce
                           @ siv_encrypt (k_siv k) nonce [] plaintext
                           @ drop 100 (cookie nke_cookie)\<rparr>))"

definition NKE_DecodeCookie ::
  "(byte list \<Rightarrow> byte list \<Rightarrow> byte list \<Rightarrow> byte list \<Rightarrow> byte list option)
     \<Rightarrow> key_ring \<Rightarrow> NKE_Cookie \<Rightarrow> (NKE_Key \<times> NKE_Key) option" where
  "NKE_DecodeCookie siv_decrypt ring nke_cookie =
     (if c_length nke_cookie \<noteq> 100 then None
      else
        let key_id = load_u32 (cookie nke_cookie);
            k = server_keys ring ! (unat key_id mod MAX_SERVER_KEYS)
        in if key_id \<noteq> k_id k then None
           else case siv_decrypt (k_siv k) (take 16 (drop 4 (cookie nke_cookie))) []
                       (take 80 (drop 20 (cookie nke_cookie))) of
                  None \<Rightarrow> None
                | Some plaintext \<Rightarrow>
                    Some (\<lparr>k_length = 32, key = take 32 plaintext\<rparr>,
                          \<lparr>k_length = 32, key = take 32 (drop 32 plaintext)\<rparr>))"

lemma decode_unknown_key:
  "load_u32 (cookie ck) \<noteq> k_id (server_keys ring ! (unat (load_u32 (cookie ck)) mod 4)) \<Longrightarrow>
     NKE_DecodeCookie siv_decrypt ring ck = None"
  by (simp add: NKE_DecodeCookie_def Let_def MAX_SERVER_KEYS_def)

section \<open>NTS extension fields in NTP packets (the unnamed source file, nts\_ntp.c)\<close>

definition NONCE_LENGTH :: nat where "NONCE_LENGTH = 16"
definition UNIQ_ID_LENGTH :: nat where "UNIQ_ID_LENGTH = 32"
definition SIV_DIGEST_SIZE :: nat where "SIV_DIGEST_SIZE = 16"

text \<open>
  Modelled from the spec: the declarations of ntp.h and ntp\_ext.h, which are not among
  the sources. \<open>NTP_Mode\<close> is the mode of a packet: the two modes the code here names,
  \<^verbatim>\<open>MODE_CLIENT\<close> and \<^verbatim>\<open>MODE_SERVER\<close>, and any other value. \<open>ef_type\<close> is the type of an extension field:
  the four NTS types the code switches on (spec 4.B), all distinct, and any other
  value.
\<close>

datatype NTP_Mode = MODE_CLIENT | MODE_SERVER | MODE_OTHER nat

datatype ef_type =
  NTP_EF_NTS_UNIQUE_IDENTIFIER
| NTP_EF_NTS_COOKIE
| NTP_EF_NTS_COOKIE_PLACEHOLDER
| NTP_EF_NTS_AUTH_AND_EEF
| NTP_EF_OTHER nat

text \<open>
  Modelled from the spec: \<^verbatim>\<open>NTP_Packet\<close> and \<^verbatim>\<open>NTP_PacketInfo\<close> (ntp.h). A packet is
  its header and the extension fields that lie within \<^verbatim>\<open>info->length\<close>, each a type
  and a body (spec 4.B, 6: typed, length-delimited fields appended to the packet).
  The fields of \<^verbatim>\<open>NTP_PacketInfo\<close> are those the code here reads.
\<close>

record NTP_Packet =
  header :: "byte list"
  ext :: "(ef_type \<times> byte list) list"

record NTP_PacketInfo =
  i_length :: nat
  i_mode :: NTP_Mode
  i_ext_fields :: nat

definition get_padded_length :: "nat \<Rightarrow> nat" where
  "get_padded_length len = (if len mod 4 \<noteq> 0 then len + (4 - len mod 4) else len)"

text \<open>
  Modelled from the spec: \<^verbatim>\<open>NEF_ParseField\<close> (ntp\_ext.c, not among the sources), the
  spec's parse of typed extension fields (4.B). The cursor \<open>nparsed\<close>, the local
  \<^verbatim>\<open>parsed\<close> of the callers, counts the fields already read instead of their bytes.
  \<open>None\<close> stands for a return value below the cursor, which ends the callers' loops;
  \<open>Some\<close> gives the new cursor with \<^verbatim>\<open>ef_type\<close> and \<^verbatim>\<open>ef_body\<close>
  (\<^verbatim>\<open>ef_body_length\<close> is the length of the list).
\<close>

definition NEF_ParseField :: "NTP_Packet \<Rightarrow> nat \<Rightarrow> nat \<Rightarrow> (nat \<times> ef_type \<times> byte list) option" where
  "NEF_ParseField packet len nparsed =
     (if nparsed < length (ext packet)
      then Some (nparsed + 1, fst (ext packet ! nparsed), snd (ext packet ! nparsed))
      else None)"

text \<open>
  Modelled from the spec: \<^verbatim>\<open>NEF_AddField\<close> (ntp\_ext.c, not among the sources), the
  spec's append of a typed extension field (4.B). It returns whether the field was
  added. A field takes a 4-byte header and its body padded to a multiple of 4
  (spec 6: each field is 4-byte aligned); the call fails when the packet would grow
  beyond \<open>cap\<close> bytes, and then leaves the packet as it was. The capacity \<open>cap\<close> is a
  parameter.
\<close>

definition NEF_AddField ::
  "nat \<Rightarrow> NTP_Packet \<Rightarrow> NTP_PacketInfo \<Rightarrow> ef_type \<Rightarrow> byte list
     \<Rightarrow> bool \<times> NTP_Packet \<times> NTP_PacketInfo" where
  "NEF_AddField cap packet info type body =
     (if i_length info + 4 + get_padded_length (length body) > cap
      then (False, packet, info)
      else (True, packet\<lparr>ext := ext packet @ [(type, body)]\<rparr>,
            info\<lparr>i_length := i_length info + 4 + get_padded_length (length body),
                 i_ext_fields := i_ext_fields info + 1\<rparr>))"

text \<open>
  \<^verbatim>\<open>struct AuthAndEEF\<close>: the two pointers into the field body are kept as offsets
  from \<^verbatim>\<open>ef_body\<close>.
\<close>

record AuthAndEEF =
  a_nonce :: nat
  a_ciphertext :: nat
  nonce_length :: nat
  ciphertext_length :: nat

definition parse_auth_and_eef :: "byte list \<Rightarrow> AuthAndEEF option" where
  "parse_auth_and_eef ef_body =
     (if length ef_body < 4 then None
      else
        let nl = unat (ntohs (ef_body ! 0) (ef_body ! 1));
            cl = unat (ntohs (ef_body ! 2) (ef_body ! 3))
        in if get_padded_length nl + get_padded_length cl > length ef_body then None
           else Some \<lparr>a_nonce = 4, a_ciphertext = 4 + get_padded_length nl,
                      nonce_length = nl, ciphertext_length = cl\<rparr>)"

text \<open>
  \<^verbatim>\<open>NTS_CheckRequestAuth\<close>. \<open>check_locals\<close> holds the locals \<^verbatim>\<open>cookie\<close> (with
  \<^verbatim>\<open>cookie_length\<close>, the length of the list; \<open>None\<close> is the null pointer) and
  \<^verbatim>\<open>auth_and_eef\<close> (\<open>None\<close> until it is written). In the loop \<open>None\<close> is an early
  \<^verbatim>\<open>return 0\<close>, \<open>Some\<close> the \<^verbatim>\<open>break\<close>. After the loop the statement
  \<^verbatim>\<open>if (cookie && cookie_length) ;\<close> does nothing and the function returns 1.
\<close>

record check_locals =
  l_cookie :: "byte list option"
  l_auth_and_eef :: "AuthAndEEF option"

function check_request_loop ::
  "NTP_Packet \<Rightarrow> nat \<Rightarrow> nat \<Rightarrow> check_locals \<Rightarrow> check_locals option" where
  "check_request_loop packet len nparsed l =
     (case NEF_ParseField packet len nparsed of
        None \<Rightarrow> Some l
      | Some (ef_parsed, ef_type, ef_body) \<Rightarrow>
          (case ef_type of
             NTP_EF_NTS_COOKIE \<Rightarrow>
               if l_cookie l \<noteq> None then None
               else check_request_loop packet len ef_parsed (l\<lparr>l_cookie := Some ef_body\<rparr>)
           | NTP_EF_NTS_COOKIE_PLACEHOLDER \<Rightarrow> check_request_loop packet len ef_parsed l
           | NTP_EF_NTS_AUTH_AND_EEF \<Rightarrow>
               (case parse_auth_and_eef ef_body of
                  None \<Rightarrow> None
                | Some a \<Rightarrow>
                    check_request_loop packet len ef_parsed (l\<lparr>l_auth_and_eef := Some a\<rparr>))
           | _ \<Rightarrow> check_request_loop packet len ef_parsed l))"
  by pat_completeness auto
termination
  by (relation "measure (\<lambda>(packet, len, nparsed, l). length (ext packet) - nparsed)")
     (auto simp: NEF_ParseField_def split: if_splits)

declare check_request_loop.simps [simp del]

definition NTS_CheckRequestAuth :: "NTP_Packet \<Rightarrow> NTP_PacketInfo \<Rightarrow> int" where
  "NTS_CheckRequestAuth packet info =
     (if i_ext_fields info = 0 \<or> i_mode info \<noteq> MODE_CLIENT then 0
      else case check_request_loop packet (i_length info) 0
                  \<lparr>l_cookie = None, l_auth_and_eef = None\<rparr> of
             None \<Rightarrow> 0
           | Some l \<Rightarrow> 1)"

text \<open>
  \<^verbatim>\<open>NTS_GenerateResponseAuth\<close>. The switch has no \<^verbatim>\<open>break\<close> between the case of the
  Unique-Identifier and the cases of Cookie and Cookie-Placeholder. The first
  component of the loop's result tells whether it ran to its \<^verbatim>\<open>break\<close> (\<open>True\<close>)
  or left by \<^verbatim>\<open>return 0\<close>.
\<close>

definition add_response_cookie ::
  "nat \<Rightarrow> NTP_Packet \<Rightarrow> NTP_PacketInfo \<Rightarrow> bool \<times> NTP_Packet \<times> NTP_PacketInfo" where
  "add_response_cookie cap packet info =
     NEF_AddField cap packet info NTP_EF_NTS_COOKIE (replicate 100 0)"

function response_auth_loop ::
  "nat \<Rightarrow> NTP_Packet \<Rightarrow> nat \<Rightarrow> nat \<Rightarrow> NTP_Packet \<Rightarrow> NTP_PacketInfo
     \<Rightarrow> bool \<times> NTP_Packet \<times> NTP_PacketInfo" where
  "response_auth_loop cap request len nparsed response res_info =
     (case NEF_ParseField request len nparsed of
        None \<Rightarrow> (True, response, res_info)
      | Some (ef_parsed, ef_type, ef_body) \<Rightarrow>
          (case ef_type of
             NTP_EF_NTS_UNIQUE_IDENTIFIER \<Rightarrow>
               (case NEF_AddField cap response res_info ef_type ef_body of
                  (False, response1, res_info1) \<Rightarrow> (False, response1, res_info1)
                | (True, response1, res_info1) \<Rightarrow>
                    (case add_response_cookie cap response1 res_info1 of
                       (False, response2, res_info2) \<Rightarrow> (False, response2, res_info2)
                     | (True, response2, res_info2) \<Rightarrow>
                         response_auth_loop cap request len ef_parsed response2 res_info2))
           | NTP_EF_NTS_COOKIE \<Rightarrow>
               (case add_response_cookie cap response res_info of
                  (False, response2, res_info2) \<Rightarrow> (False, response2, res_info2)
                | (True, response2, res_info2) \<Rightarrow>
                    response_auth_loop cap request len ef_parsed response2 res_info2)
           | NTP_EF_NTS_COOKIE_PLACEHOLDER \<Rightarrow>
               (case add_response_cookie cap response res_info of
                  (False, response2, res_info2) \<Rightarrow> (False, response2, res_info2)
                | (True, response2, res_info2) \<Rightarrow>
                    response_auth_loop cap request len ef_parsed response2 res_info2)
           | _ \<Rightarrow> response_auth_loop cap request len ef_parsed response res_info))"
  by pat_completeness auto
termination
  by (relation "measure (\<lambda>(cap, request, len, nparsed, response, res_info).
                  length (ext request) - nparsed)")
     (auto simp: NEF_ParseField_def split: if_splits)

declare response_auth_loop.simps [simp del]

definition NTS_GenerateResponseAuth ::
  "nat \<Rightarrow> NTP_Packet \<Rightarrow> NTP_PacketInfo \<Rightarrow> NTP_Packet \<Rightarrow> NTP_PacketInfo
     \<Rightarrow> int \<times> NTP_Packet \<times> NTP_PacketInfo" where
  "NTS_GenerateResponseAuth cap request req_info response res_info =
     (if i_mode req_info \<noteq> MODE_CLIENT \<or> i_mode res_info \<noteq> MODE_SERVER
      then (0, response, res_info)
      else case response_auth_loop cap request (i_length req_info) 0 response res_info of
             (False, response', res_info') \<Rightarrow> (0, response', res_info')
           | (True, response', res_info') \<Rightarrow> (1, response', res_info'))"

text \<open>
  \<^verbatim>\<open>struct NTS_ClientInstance_Record\<close>, with the fields the functions below use. The
  SIV contexts are kept as the keys they were set from.
  \<open>siv_encrypt key nonce packet plaintext\<close> stands for
  \<^verbatim>\<open>siv_aes128_cmac_encrypt_message\<close> of the external library: its associated data, the
  first \<^verbatim>\<open>info->length\<close> bytes of the packet, is passed as the packet built so far.
\<close>

record NTS_ClientInstance =
  cookies :: "NKE_Cookie list"
  num_cookies :: int
  cookie_index :: nat
  siv_c2s :: "byte list"
  siv_s2c :: "byte list"
  nonce :: "byte list"
  uniq_id :: "byte list"

definition needs_nke :: "NTS_ClientInstance \<Rightarrow> bool" where
  "needs_nke inst \<longleftrightarrow> num_cookies inst = 0"

fun add_placeholders ::
  "nat \<Rightarrow> nat \<Rightarrow> NTP_Packet \<Rightarrow> NTP_PacketInfo \<Rightarrow> NKE_Cookie
     \<Rightarrow> bool \<times> NTP_Packet \<times> NTP_PacketInfo" where
  "add_placeholders cap 0 packet info c = (True, packet, info)"
| "add_placeholders cap (Suc n) packet info c =
     (case NEF_AddField cap packet info NTP_EF_NTS_COOKIE_PLACEHOLDER
             (take (c_length c) (cookie c)) of
        (False, packet', info') \<Rightarrow> (False, packet', info')
      | (True, packet', info') \<Rightarrow> add_placeholders cap n packet' info' c)"

definition NTS_GenerateRequestAuth ::
  "nat \<Rightarrow> (byte list \<Rightarrow> byte list \<Rightarrow> NTP_Packet \<Rightarrow> byte list \<Rightarrow> byte list)
     \<Rightarrow> NTS_ClientInstance \<Rightarrow> NTP_Packet \<Rightarrow> NTP_PacketInfo
     \<Rightarrow> int \<times> NTS_ClientInstance \<times> NTP_Packet \<times> NTP_PacketInfo" where
  "NTS_GenerateRequestAuth cap siv_encrypt inst packet info =
     (if needs_nke inst then (0, inst, packet, info)
      else
        let c = cookies inst ! cookie_index inst in
        case NEF_AddField cap packet info NTP_EF_NTS_UNIQUE_IDENTIFIER
               (take UNIQ_ID_LENGTH (uniq_id inst)) of
          (False, packet1, info1) \<Rightarrow> (0, inst, packet1, info1)
        | (True, packet1, info1) \<Rightarrow>
        case NEF_AddField cap packet1 info1 NTP_EF_NTS_COOKIE (take (c_length c) (cookie c)) of
          (False, packet2, info2) \<Rightarrow> (0, inst, packet2, info2)
        | (True, packet2, info2) \<Rightarrow>
        case add_placeholders cap (nat (int MAX_COOKIES - num_cookies inst)) packet2 info2 c of
          (False, packet3, info3) \<Rightarrow> (0, inst, packet3, info3)
        | (True, packet3, info3) \<Rightarrow>
        let auth = htons (word_of_nat NONCE_LENGTH) @ htons (word_of_nat SIV_DIGEST_SIZE)
                   @ take NONCE_LENGTH (nonce inst)
                   @ take SIV_DIGEST_SIZE
                       (siv_encrypt (siv_c2s inst) (take NONCE_LENGTH (nonce inst)) packet3 [])
        in
        case NEF_AddField cap packet3 info3 NTP_EF_NTS_AUTH_AND_EEF auth of
          (False, packet4, info4) \<Rightarrow> (0, inst, packet4, info4)
        | (True, packet4, info4) \<Rightarrow>
            (1, inst\<lparr>num_cookies := num_cookies inst - 1,
                     cookie_index := (cookie_index inst + 1) mod MAX_COOKIES\<rparr>,
             packet4, info4))"

definition NTS_CheckResponseAuth :: "NTS_ClientInstance \<Rightarrow> NTP_Packet \<Rightarrow> NTP_PacketInfo \<Rightarrow> int" where
  "NTS_CheckResponseAuth inst packet info =
     (if i_ext_fields info = 0 \<or> i_mode info \<noteq> MODE_SERVER then 0 else 0)"

text \<open>
  The loops over the fields of a packet as recursion over the list of fields, and
  what the two server functions make of it.
\<close>

fun check_fields :: "check_locals \<Rightarrow> (ef_type \<times> byte list) list \<Rightarrow> check_locals option" where
  "check_fields l [] = Some l"
| "check_fields l ((t, b) # fs) =
     (case t of
        NTP_EF_NTS_COOKIE \<Rightarrow>
          if l_cookie l \<noteq> None then None else check_fields (l\<lparr>l_cookie := Some b\<rparr>) fs
      | NTP_EF_NTS_COOKIE_PLACEHOLDER \<Rightarrow> check_fields l fs
      | NTP_EF_NTS_AUTH_AND_EEF \<Rightarrow>
          (case parse_auth_and_eef b of
             None \<Rightarrow> None
           | Some a \<Rightarrow> check_fields (l\<lparr>l_auth_and_eef := Some a\<rparr>) fs)
      | _ \<Rightarrow> check_fields l fs)"

lemma drop_fields:
  "nparsed < length fs \<Longrightarrow> drop nparsed fs = (fst (fs ! nparsed), snd (fs ! nparsed)) # drop (Suc nparsed) fs"
  by (simp add: Cons_nth_drop_Suc)

lemma check_request_loop_fields:
  "check_request_loop packet len nparsed l = check_fields l (drop nparsed (ext packet))"
proof (induction packet len nparsed l rule: check_request_loop.induct)
  case (1 packet len nparsed l)
  show ?case
  proof (cases "nparsed < length (ext packet)")
    case False
    then show ?thesis
      by (subst check_request_loop.simps) (simp add: NEF_ParseField_def)
  next
    case True
    obtain t b where tb: "ext packet ! nparsed = (t, b)" by (cases "ext packet ! nparsed")
    from True tb have p: "NEF_ParseField packet len nparsed = Some (nparsed + 1, t, b)"
      by (simp add: NEF_ParseField_def)
    from True tb have d: "drop nparsed (ext packet) = (t, b) # drop (nparsed + 1) (ext packet)"
      by (simp add: Cons_nth_drop_Suc [symmetric])
    note ih = "1.IH" [OF p refl refl]
    show ?thesis
      unfolding d
      apply (subst check_request_loop.simps)
      apply (cases t)
      using ih apply (simp_all add: p split: option.splits)
      done
  qed
qed

definition is_type :: "ef_type \<Rightarrow> ef_type \<times> byte list \<Rightarrow> bool" where
  "is_type t f \<longleftrightarrow> fst f = t"

lemma is_type_pair [simp]: "is_type t (t', b) \<longleftrightarrow> t' = t"
  by (simp add: is_type_def)

definition auth_fields_parse :: "(ef_type \<times> byte list) list \<Rightarrow> bool" where
  "auth_fields_parse fs =
     list_all (\<lambda>f. parse_auth_and_eef (snd f) \<noteq> None) (filter (is_type NTP_EF_NTS_AUTH_AND_EEF) fs)"

lemma check_fields_ok:
  "(\<exists>l'. check_fields l fs = Some l') \<longleftrightarrow>
     length (filter (is_type NTP_EF_NTS_COOKIE) fs) + (if l_cookie l = None then 0 else 1) \<le> 1
     \<and> auth_fields_parse fs"
proof (induction fs arbitrary: l)
  case Nil
  show ?case by (simp add: auth_fields_parse_def)
next
  case (Cons f fs)
  obtain t b where f: "f = (t, b)" by (cases f)
  have ih: "\<And>l. (\<exists>l'. check_fields l fs = Some l') \<longleftrightarrow>
     length (filter (is_type NTP_EF_NTS_COOKIE) fs) + (if l_cookie l = None then 0 else 1) \<le> 1
     \<and> list_all (\<lambda>f. parse_auth_and_eef (snd f) \<noteq> None) (filter (is_type NTP_EF_NTS_AUTH_AND_EEF) fs)"
    using Cons.IH by (simp add: auth_fields_parse_def)
  show ?case unfolding f auth_fields_parse_def
  proof (cases t)
    case NTP_EF_NTS_COOKIE
    then show "(\<exists>l'. check_fields l ((t, b) # fs) = Some l') \<longleftrightarrow>
     length (filter (is_type NTP_EF_NTS_COOKIE) ((t, b) # fs)) + (if l_cookie l = None then 0 else 1) \<le> 1
     \<and> list_all (\<lambda>f. parse_auth_and_eef (snd f) \<noteq> None) (filter (is_type NTP_EF_NTS_AUTH_AND_EEF) ((t, b) # fs))"
      using ih [of "l\<lparr>l_cookie := Some b\<rparr>"] by (cases "l_cookie l") simp_all
  next
    case NTP_EF_NTS_AUTH_AND_EEF
    then show "(\<exists>l'. check_fields l ((t, b) # fs) = Some l') \<longleftrightarrow>
     length (filter (is_type NTP_EF_NTS_COOKIE) ((t, b) # fs)) + (if l_cookie l = None then 0 else 1) \<le> 1
     \<and> list_all (\<lambda>f. parse_auth_and_eef (snd f) \<noteq> None) (filter (is_type NTP_EF_NTS_AUTH_AND_EEF) ((t, b) # fs))"
    proof (cases "parse_auth_and_eef b")
      case None
      with NTP_EF_NTS_AUTH_AND_EEF show ?thesis by simp
    next
      case (Some a)
      with NTP_EF_NTS_AUTH_AND_EEF show ?thesis
        using ih [of "l\<lparr>l_auth_and_eef := Some a\<rparr>"] by simp
    qed
  qed (use ih [of l] in \<open>simp_all\<close>)
qed

lemma NTS_CheckRequestAuth_fields:
  "NTS_CheckRequestAuth packet info = 1 \<longleftrightarrow>
     i_ext_fields info \<noteq> 0 \<and> i_mode info = MODE_CLIENT
     \<and> length (filter (is_type NTP_EF_NTS_COOKIE) (ext packet)) \<le> 1
     \<and> auth_fields_parse (ext packet)"
  using check_fields_ok [of "\<lparr>l_cookie = None, l_auth_and_eef = None\<rparr>" "ext packet"]
  by (auto simp: NTS_CheckRequestAuth_def check_request_loop_fields split: option.splits)

lemma NTS_CheckRequestAuth_result:
  "NTS_CheckRequestAuth packet info = 0 \<or> NTS_CheckRequestAuth packet info = 1"
  by (simp add: NTS_CheckRequestAuth_def split: option.splits)

lemma NEF_AddField_True:
  "NEF_AddField cap packet info t b = (True, packet', info') \<Longrightarrow>
     packet' = packet\<lparr>ext := ext packet @ [(t, b)]\<rparr>
     \<and> i_mode info' = i_mode info
     \<and> i_length info' = i_length info + 4 + get_padded_length (length b)"
  by (auto simp: NEF_AddField_def split: if_splits)

fun response_fields ::
  "nat \<Rightarrow> (ef_type \<times> byte list) list \<Rightarrow> NTP_Packet \<Rightarrow> NTP_PacketInfo
     \<Rightarrow> bool \<times> NTP_Packet \<times> NTP_PacketInfo" where
  "response_fields cap [] response res_info = (True, response, res_info)"
| "response_fields cap ((t, b) # fs) response res_info =
     (case t of
        NTP_EF_NTS_UNIQUE_IDENTIFIER \<Rightarrow>
          (case NEF_AddField cap response res_info t b of
             (False, response1, res_info1) \<Rightarrow> (False, response1, res_info1)
           | (True, response1, res_info1) \<Rightarrow>
               (case add_response_cookie cap response1 res_info1 of
                  (False, response2, res_info2) \<Rightarrow> (False, response2, res_info2)
                | (True, response2, res_info2) \<Rightarrow> response_fields cap fs response2 res_info2))
      | NTP_EF_NTS_COOKIE \<Rightarrow>
          (case add_response_cookie cap response res_info of
             (False, response2, res_info2) \<Rightarrow> (False, response2, res_info2)
           | (True, response2, res_info2) \<Rightarrow> response_fields cap fs response2 res_info2)
      | NTP_EF_NTS_COOKIE_PLACEHOLDER \<Rightarrow>
          (case add_response_cookie cap response res_info of
             (False, response2, res_info2) \<Rightarrow> (False, response2, res_info2)
           | (True, response2, res_info2) \<Rightarrow> response_fields cap fs response2 res_info2)
      | _ \<Rightarrow> response_fields cap fs response res_info)"

lemma response_auth_loop_fields:
  "response_auth_loop cap request len nparsed response res_info
     = response_fields cap (drop nparsed (ext request)) response res_info"
proof (induction cap request len nparsed response res_info rule: response_auth_loop.induct)
  case (1 cap request len nparsed response res_info)
  show ?case
  proof (cases "nparsed < length (ext request)")
    case False
    then show ?thesis
      by (subst response_auth_loop.simps) (simp add: NEF_ParseField_def)
  next
    case True
    obtain t b where tb: "ext request ! nparsed = (t, b)" by (cases "ext request ! nparsed")
    from True tb have p: "NEF_ParseField request len nparsed = Some (nparsed + 1, t, b)"
      by (simp add: NEF_ParseField_def)
    from True tb have d: "drop nparsed (ext request) = (t, b) # drop (nparsed + 1) (ext request)"
      by (simp add: Cons_nth_drop_Suc [symmetric])
    note ih = "1.IH" [OF p refl refl]
    show ?thesis
      unfolding d
      apply (subst response_auth_loop.simps)
      apply (cases t)
      using ih apply (simp_all add: p split: prod.splits bool.splits)
      done
  qed
qed

fun response_to :: "ef_type \<times> byte list \<Rightarrow> (ef_type \<times> byte list) list" where
  "response_to (NTP_EF_NTS_UNIQUE_IDENTIFIER, b) =
     [(NTP_EF_NTS_UNIQUE_IDENTIFIER, b), (NTP_EF_NTS_COOKIE, replicate 100 0)]"
| "response_to (NTP_EF_NTS_COOKIE, b) = [(NTP_EF_NTS_COOKIE, replicate 100 0)]"
| "response_to (NTP_EF_NTS_COOKIE_PLACEHOLDER, b) = [(NTP_EF_NTS_COOKIE, replicate 100 0)]"
| "response_to (t, b) = []"

lemma response_fields_ext:
  "response_fields cap fs response res_info = (True, response', res_info') \<Longrightarrow>
     response' = response\<lparr>ext := ext response @ concat (map response_to fs)\<rparr>"
proof (induction fs arbitrary: response res_info)
  case Nil
  then show ?case by simp
next
  case (Cons f fs)
  obtain t b where f: "f = (t, b)" by (cases f)
  show ?case
  proof (cases t)
    case NTP_EF_NTS_UNIQUE_IDENTIFIER
    with Cons.prems f obtain r1 i1 r2 i2 where
      a1: "NEF_AddField cap response res_info t b = (True, r1, i1)" and
      a2: "add_response_cookie cap r1 i1 = (True, r2, i2)" and
      rest: "response_fields cap fs r2 i2 = (True, response', res_info')"
      by (auto split: prod.splits bool.splits)
    from NEF_AddField_True [OF a1] have r1: "r1 = response\<lparr>ext := ext response @ [(t, b)]\<rparr>" by simp
    from NEF_AddField_True [OF a2 [unfolded add_response_cookie_def]]
    have r2: "r2 = r1\<lparr>ext := ext r1 @ [(NTP_EF_NTS_COOKIE, replicate 100 0)]\<rparr>" by simp
    from Cons.IH [OF rest] r1 r2 f NTP_EF_NTS_UNIQUE_IDENTIFIER show ?thesis by simp
  next
    case NTP_EF_NTS_COOKIE
    with Cons.prems f obtain r2 i2 where
      a2: "add_response_cookie cap response res_info = (True, r2, i2)" and
      rest: "response_fields cap fs r2 i2 = (True, response', res_info')"
      by (auto split: prod.splits bool.splits)
    from NEF_AddField_True [OF a2 [unfolded add_response_cookie_def]]
    have r2: "r2 = response\<lparr>ext := ext response @ [(NTP_EF_NTS_COOKIE, replicate 100 0)]\<rparr>" by simp
    from Cons.IH [OF rest] r2 f NTP_EF_NTS_COOKIE show ?thesis by simp
  next
    case NTP_EF_NTS_COOKIE_PLACEHOLDER
    with Cons.prems f obtain r2 i2 where
      a2: "add_response_cookie cap response res_info = (True, r2, i2)" and
      rest: "response_fields cap fs r2 i2 = (True, response', res_info')"
      by (auto split: prod.splits bool.splits)
    from NEF_AddField_True [OF a2 [unfolded add_response_cookie_def]]
    have r2: "r2 = response\<lparr>ext := ext response @ [(NTP_EF_NTS_COOKIE, replicate 100 0)]\<rparr>" by simp
    from Cons.IH [OF rest] r2 f NTP_EF_NTS_COOKIE_PLACEHOLDER show ?thesis by simp
  next
    case NTP_EF_NTS_AUTH_AND_EEF
    with Cons.prems f Cons.IH [of response res_info] show ?thesis by simp
  next
    case (NTP_EF_OTHER n)
    with Cons.prems f Cons.IH [of response res_info] show ?thesis by simp
  qed
qed

lemma count_response_to:
  "length (filter (is_type NTP_EF_NTS_COOKIE) (concat (map response_to fs)))
     = length (filter (is_type NTP_EF_NTS_UNIQUE_IDENTIFIER) fs)
       + length (filter (is_type NTP_EF_NTS_COOKIE) fs)
       + length (filter (is_type NTP_EF_NTS_COOKIE_PLACEHOLDER) fs)"
proof (induction fs)
  case Nil
  show ?case by simp
next
  case (Cons f fs)
  obtain t b where f: "f = (t, b)" by (cases f)
  from Cons.IH show ?case unfolding f by (cases t) simp_all
qed

lemma echo_response_to:
  "filter (is_type NTP_EF_NTS_UNIQUE_IDENTIFIER) (concat (map response_to fs))
     = filter (is_type NTP_EF_NTS_UNIQUE_IDENTIFIER) fs"
proof (induction fs)
  case Nil
  show ?case by simp
next
  case (Cons f fs)
  obtain t b where f: "f = (t, b)" by (cases f)
  from Cons.IH show ?case unfolding f by (cases t) simp_all
qed

lemma add_placeholders_True:
  "add_placeholders cap n packet info c = (True, packet', info') \<Longrightarrow>
     packet' = packet\<lparr>ext := ext packet
        @ replicate n (NTP_EF_NTS_COOKIE_PLACEHOLDER, take (c_length c) (cookie c))\<rparr>"
proof (induction n arbitrary: packet info)
  case 0
  then show ?case by simp
next
  case (Suc n)
  from Suc.prems obtain p1 i1 where
    a: "NEF_AddField cap packet info NTP_EF_NTS_COOKIE_PLACEHOLDER (take (c_length c) (cookie c))
          = (True, p1, i1)" and
    rest: "add_placeholders cap n p1 i1 c = (True, packet', info')"
    by (auto split: prod.splits bool.splits)
  from NEF_AddField_True [OF a]
  have "p1 = packet\<lparr>ext := ext packet
      @ [(NTP_EF_NTS_COOKIE_PLACEHOLDER, take (c_length c) (cookie c))]\<rparr>" by simp
  with Suc.IH [OF rest] show ?case by (simp add: replicate_app_Cons_same)
qed

lemma htons_16: "htons 16 = [0, 16]"
  by (simp add: htons_def)

text \<open>
  The bytes one extension field with the given body takes in the packet, as
  \<open>NEF_AddField\<close> above counts them; the lemmas below say when the calls have room.
\<close>

definition field_size :: "byte list \<Rightarrow> nat" where
  "field_size body = 4 + get_padded_length (length body)"

lemma NEF_AddField_fits:
  "i_length info + field_size b \<le> cap \<Longrightarrow>
     NEF_AddField cap packet info t b =
       (True, packet\<lparr>ext := ext packet @ [(t, b)]\<rparr>,
        info\<lparr>i_length := i_length info + field_size b, i_ext_fields := i_ext_fields info + 1\<rparr>)"
  by (simp add: NEF_AddField_def field_size_def add.assoc)

lemma response_fields_fits:
  "i_length res_info + sum_list (map (\<lambda>f. field_size (snd f)) (concat (map response_to fs))) \<le> cap
   \<Longrightarrow> fst (response_fields cap fs response res_info) = True"
proof (induction fs arbitrary: response res_info)
  case Nil
  show ?case by simp
next
  case (Cons f fs)
  obtain t b where f: "f = (t, b)" by (cases f)
  show ?case
  proof (cases t)
    case NTP_EF_NTS_UNIQUE_IDENTIFIER
    let ?i1 = "res_info\<lparr>i_length := i_length res_info + field_size b,
                 i_ext_fields := i_ext_fields res_info + 1\<rparr>"
    let ?i2 = "?i1\<lparr>i_length := i_length ?i1 + field_size (replicate 100 0),
                 i_ext_fields := i_ext_fields ?i1 + 1\<rparr>"
    from Cons.prems f NTP_EF_NTS_UNIQUE_IDENTIFIER
    have a1: "i_length res_info + field_size b \<le> cap"
      and a2: "i_length ?i1 + field_size (replicate 100 0) \<le> cap"
      and a3: "i_length ?i2 + sum_list (map (\<lambda>f. field_size (snd f)) (concat (map response_to fs))) \<le> cap"
      by simp_all
    from Cons.IH [OF a3] a1 a2 show ?thesis
      unfolding f NTP_EF_NTS_UNIQUE_IDENTIFIER
      by (simp add: NEF_AddField_fits add_response_cookie_def)
  next
    case NTP_EF_NTS_COOKIE
    let ?i2 = "res_info\<lparr>i_length := i_length res_info + field_size (replicate 100 0),
                 i_ext_fields := i_ext_fields res_info + 1\<rparr>"
    from Cons.prems f NTP_EF_NTS_COOKIE
    have a2: "i_length res_info + field_size (replicate 100 0) \<le> cap"
      and a3: "i_length ?i2 + sum_list (map (\<lambda>f. field_size (snd f)) (concat (map response_to fs))) \<le> cap"
      by simp_all
    from Cons.IH [OF a3] a2 show ?thesis
      unfolding f NTP_EF_NTS_COOKIE
      by (simp add: add_response_cookie_def NEF_AddField_fits)
  next
    case NTP_EF_NTS_COOKIE_PLACEHOLDER
    let ?i2 = "res_info\<lparr>i_length := i_length res_info + field_size (replicate 100 0),
                 i_ext_fields := i_ext_fields res_info + 1\<rparr>"
    from Cons.prems f NTP_EF_NTS_COOKIE_PLACEHOLDER
    have a2: "i_length res_info + field_size (replicate 100 0) \<le> cap"
      and a3: "i_length ?i2 + sum_list (map (\<lambda>f. field_size (snd f)) (concat (map response_to fs))) \<le> cap"
      by simp_all
    from Cons.IH [OF a3] a2 show ?thesis
      unfolding f NTP_EF_NTS_COOKIE_PLACEHOLDER
      by (simp add: add_response_cookie_def NEF_AddField_fits)
  next
    case NTP_EF_NTS_AUTH_AND_EEF
    with Cons.prems f Cons.IH [of res_info response] show ?thesis by simp
  next
    case (NTP_EF_OTHER n)
    with Cons.prems f Cons.IH [of res_info response] show ?thesis by simp
  qed
qed

lemma response_to_cookie_constant:
  "f \<in> set (concat (map response_to fs)) \<Longrightarrow> fst f = NTP_EF_NTS_COOKIE \<Longrightarrow>
     snd f = replicate 100 0"
proof (induction fs)
  case Nil
  then show ?case by simp
next
  case (Cons g fs)
  obtain t b where g: "g = (t, b)" by (cases g)
  from Cons show ?case unfolding g by (cases t) auto
qed

lemma add_placeholders_fits:
  "i_length info + n * field_size (take (c_length c) (cookie c)) \<le> cap \<Longrightarrow>
     \<exists>packet' info'. add_placeholders cap n packet info c = (True, packet', info')
       \<and> i_length info' = i_length info + n * field_size (take (c_length c) (cookie c))"
proof (induction n arbitrary: packet info)
  case 0
  show ?case by simp
next
  case (Suc n)
  let ?b = "take (c_length c) (cookie c)"
  let ?i1 = "info\<lparr>i_length := i_length info + field_size ?b,
                 i_ext_fields := i_ext_fields info + 1\<rparr>"
  from Suc.prems have a1: "i_length info + field_size ?b \<le> cap"
    and a2: "i_length ?i1 + n * field_size ?b \<le> cap" by simp_all
  from Suc.IH [OF a2, of "packet\<lparr>ext := ext packet @ [(NTP_EF_NTS_COOKIE_PLACEHOLDER, ?b)]\<rparr>"]
  show ?case using a1 by (auto simp: NEF_AddField_fits)
qed

lemma response_auth_shape:
  assumes "NTS_GenerateResponseAuth cap request req_info response res_info
             = (1, response', res_info')"
  shows "ext response' = ext response @ concat (map response_to (ext request))
     \<and> filter (is_type NTP_EF_NTS_UNIQUE_IDENTIFIER) (ext response')
         = filter (is_type NTP_EF_NTS_UNIQUE_IDENTIFIER) (ext response)
           @ filter (is_type NTP_EF_NTS_UNIQUE_IDENTIFIER) (ext request)
     \<and> length (filter (is_type NTP_EF_NTS_COOKIE) (ext response'))
         = length (filter (is_type NTP_EF_NTS_COOKIE) (ext response))
           + length (filter (is_type NTP_EF_NTS_UNIQUE_IDENTIFIER) (ext request))
           + length (filter (is_type NTP_EF_NTS_COOKIE) (ext request))
           + length (filter (is_type NTP_EF_NTS_COOKIE_PLACEHOLDER) (ext request))
     \<and> (length (filter (is_type NTP_EF_NTS_UNIQUE_IDENTIFIER) (ext request)) = 1
        \<and> length (filter (is_type NTP_EF_NTS_COOKIE) (ext request)) = 1
        \<and> length (filter (is_type NTP_EF_NTS_COOKIE_PLACEHOLDER) (ext request)) = N
        \<longrightarrow> length (filter (is_type NTP_EF_NTS_COOKIE) (ext response'))
            = length (filter (is_type NTP_EF_NTS_COOKIE) (ext response)) + N + 2)"
proof -
  from assms have "response_fields cap (ext request) response res_info = (True, response', res_info')"
    by (auto simp: NTS_GenerateResponseAuth_def response_auth_loop_fields
        split: if_splits prod.splits bool.splits)
  from response_fields_ext [OF this]
  have e: "ext response' = ext response @ concat (map response_to (ext request))" by simp
  show ?thesis
    unfolding e by (simp add: count_response_to echo_response_to)
qed

lemma request_auth_shape:
  "(num_cookies inst = 0
      \<longrightarrow> NTS_GenerateRequestAuth cap siv_encrypt inst packet info = (0, inst, packet, info))
   \<and> (0 < num_cookies inst
       \<and> cookie_index inst < length (cookies inst)
       \<and> length (uniq_id inst) = 32 \<and> length (nonce inst) = 16
       \<and> (\<forall>p. length (siv_encrypt (siv_c2s inst) (nonce inst) p []) = 16)
       \<and> NTS_GenerateRequestAuth cap siv_encrypt inst packet info = (1, inst', packet', info')
      \<longrightarrow> (\<exists>tag. ext packet' =
              ext packet
              @ [(NTP_EF_NTS_UNIQUE_IDENTIFIER, uniq_id inst),
                 (NTP_EF_NTS_COOKIE,
                  take (c_length (cookies inst ! cookie_index inst))
                    (cookie (cookies inst ! cookie_index inst)))]
              @ replicate (nat (int MAX_COOKIES - num_cookies inst))
                  (NTP_EF_NTS_COOKIE_PLACEHOLDER,
                   take (c_length (cookies inst ! cookie_index inst))
                     (cookie (cookies inst ! cookie_index inst)))
              @ [(NTP_EF_NTS_AUTH_AND_EEF, [0, 16, 0, 16] @ nonce inst @ tag)]
            \<and> length tag = 16
            \<and> tag = siv_encrypt (siv_c2s inst) (nonce inst)
                      (packet\<lparr>ext := butlast (ext packet')\<rparr>) []
            \<and> parse_auth_and_eef ([0, 16, 0, 16] @ nonce inst @ tag)
                = Some \<lparr>a_nonce = 4, a_ciphertext = 20, nonce_length = 16,
                        ciphertext_length = 16\<rparr>)
          \<and> header packet' = header packet
          \<and> num_cookies inst' = num_cookies inst - 1
          \<and> cookie_index inst' = (cookie_index inst + 1) mod 8)"
proof (intro conjI impI)
  assume "num_cookies inst = 0"
  then show "NTS_GenerateRequestAuth cap siv_encrypt inst packet info = (0, inst, packet, info)"
    by (simp add: NTS_GenerateRequestAuth_def needs_nke_def)
next
  assume a: "0 < num_cookies inst
       \<and> cookie_index inst < length (cookies inst)
       \<and> length (uniq_id inst) = 32 \<and> length (nonce inst) = 16
       \<and> (\<forall>p. length (siv_encrypt (siv_c2s inst) (nonce inst) p []) = 16)
       \<and> NTS_GenerateRequestAuth cap siv_encrypt inst packet info = (1, inst', packet', info')"
  define c where "c = cookies inst ! cookie_index inst"
  define cb where "cb = take (c_length c) (cookie c)"
  from a have nn: "\<not> needs_nke inst" by (simp add: needs_nke_def)
  from a have lu: "take UNIQ_ID_LENGTH (uniq_id inst) = uniq_id inst"
    and ln: "take NONCE_LENGTH (nonce inst) = nonce inst"
    by (simp_all add: UNIQ_ID_LENGTH_def NONCE_LENGTH_def)
  from a have g: "NTS_GenerateRequestAuth cap siv_encrypt inst packet info = (1, inst', packet', info')"
    by simp
  from g nn obtain p1 i1 where
    s1: "NEF_AddField cap packet info NTP_EF_NTS_UNIQUE_IDENTIFIER (uniq_id inst) = (True, p1, i1)"
    by (cases "NEF_AddField cap packet info NTP_EF_NTS_UNIQUE_IDENTIFIER (uniq_id inst)")
       (auto simp: NTS_GenerateRequestAuth_def Let_def lu split: bool.splits)
  from g nn s1 obtain p2 i2 where
    s2: "NEF_AddField cap p1 i1 NTP_EF_NTS_COOKIE cb = (True, p2, i2)"
    by (cases "NEF_AddField cap p1 i1 NTP_EF_NTS_COOKIE cb")
       (auto simp: NTS_GenerateRequestAuth_def Let_def lu cb_def c_def split: bool.splits)
  from g nn s1 s2 obtain p3 i3 where
    s3: "add_placeholders cap (nat (int MAX_COOKIES - num_cookies inst)) p2 i2 c = (True, p3, i3)"
    by (cases "add_placeholders cap (nat (int MAX_COOKIES - num_cookies inst)) p2 i2 c")
       (auto simp: NTS_GenerateRequestAuth_def Let_def lu cb_def c_def split: bool.splits)
  define tag where "tag = siv_encrypt (siv_c2s inst) (nonce inst) p3 []"
  from a have lt: "length tag = 16" by (simp add: tag_def)
  then have tt: "take SIV_DIGEST_SIZE tag = tag" by (simp add: SIV_DIGEST_SIZE_def)
  define auth where "auth = [0, 16, 0, 16] @ nonce inst @ tag"
  have auth: "htons (word_of_nat NONCE_LENGTH) @ htons (word_of_nat SIV_DIGEST_SIZE)
                   @ take NONCE_LENGTH (nonce inst)
                   @ take SIV_DIGEST_SIZE
                       (siv_encrypt (siv_c2s inst) (take NONCE_LENGTH (nonce inst)) p3 []) = auth"
    unfolding ln tag_def [symmetric] tt auth_def
    by (simp add: NONCE_LENGTH_def SIV_DIGEST_SIZE_def htons_16)
  from g nn s1 s2 s3 obtain i4 where
    s4: "NEF_AddField cap p3 i3 NTP_EF_NTS_AUTH_AND_EEF auth = (True, packet', i4)" and
    inst': "inst' = inst\<lparr>num_cookies := num_cookies inst - 1,
                     cookie_index := (cookie_index inst + 1) mod MAX_COOKIES\<rparr>"
    by (cases "NEF_AddField cap p3 i3 NTP_EF_NTS_AUTH_AND_EEF auth")
       (auto simp: NTS_GenerateRequestAuth_def Let_def lu cb_def c_def auth split: bool.splits)
  from NEF_AddField_True [OF s1]
  have p1: "p1 = packet\<lparr>ext := ext packet @ [(NTP_EF_NTS_UNIQUE_IDENTIFIER, uniq_id inst)]\<rparr>"
    by simp
  from NEF_AddField_True [OF s2] have p2: "p2 = p1\<lparr>ext := ext p1 @ [(NTP_EF_NTS_COOKIE, cb)]\<rparr>"
    by simp
  from add_placeholders_True [OF s3]
  have p3: "p3 = p2\<lparr>ext := ext p2 @ replicate (nat (int MAX_COOKIES - num_cookies inst))
                (NTP_EF_NTS_COOKIE_PLACEHOLDER, cb)\<rparr>"
    by (simp add: cb_def)
  from NEF_AddField_True [OF s4]
  have p4: "packet' = p3\<lparr>ext := ext p3 @ [(NTP_EF_NTS_AUTH_AND_EEF, auth)]\<rparr>" by simp
  have e: "ext packet' = ext packet
              @ [(NTP_EF_NTS_UNIQUE_IDENTIFIER, uniq_id inst), (NTP_EF_NTS_COOKIE, cb)]
              @ replicate (nat (int MAX_COOKIES - num_cookies inst))
                  (NTP_EF_NTS_COOKIE_PLACEHOLDER, cb)
              @ [(NTP_EF_NTS_AUTH_AND_EEF, [0, 16, 0, 16] @ nonce inst @ tag)]"
    by (simp add: p4 p3 p2 p1 auth_def)
  have "butlast (ext packet') = ext p3" by (simp add: p4)
  moreover have "packet\<lparr>ext := ext p3\<rparr> = p3" by (simp add: p3 p2 p1)
  ultimately have b: "packet\<lparr>ext := butlast (ext packet')\<rparr> = p3" by simp
  have pa: "parse_auth_and_eef ([0, 16, 0, 16] @ nonce inst @ tag)
                = Some \<lparr>a_nonce = 4, a_ciphertext = 20, nonce_length = 16,
                        ciphertext_length = 16\<rparr>"
    using a lt by (simp add: parse_auth_and_eef_def ntohs_def get_padded_length_def)
  show "\<exists>tag. ext packet' =
              ext packet
              @ [(NTP_EF_NTS_UNIQUE_IDENTIFIER, uniq_id inst),
                 (NTP_EF_NTS_COOKIE,
                  take (c_length (cookies inst ! cookie_index inst))
                    (cookie (cookies inst ! cookie_index inst)))]
              @ replicate (nat (int MAX_COOKIES - num_cookies inst))
                  (NTP_EF_NTS_COOKIE_PLACEHOLDER,
                   take (c_length (cookies inst ! cookie_index inst))
                     (cookie (cookies inst ! cookie_index inst)))
              @ [(NTP_EF_NTS_AUTH_AND_EEF, [0, 16, 0, 16] @ nonce inst @ tag)]
            \<and> length tag = 16
            \<and> tag = siv_encrypt (siv_c2s inst) (nonce inst)
                      (packet\<lparr>ext := butlast (ext packet')\<rparr>) []
            \<and> parse_auth_and_eef ([0, 16, 0, 16] @ nonce inst @ tag)
                = Some \<lparr>a_nonce = 4, a_ciphertext = 20, nonce_length = 16,
                        ciphertext_length = 16\<rparr>"
    using e lt pa unfolding b by (intro exI [of _ tag]) (simp add: cb_def c_def tag_def)
  show "header packet' = header packet" by (simp add: p4 p3 p2 p1)
  show "num_cookies inst' = num_cookies inst - 1" by (simp add: inst')
  show "cookie_index inst' = (cookie_index inst + 1) mod 8" by (simp add: inst' MAX_COOKIES_def)
qed

lemma request_auth_succeeds:
  assumes n: "num_cookies inst \<noteq> 0"
    and u: "length (uniq_id inst) = 32" and l: "length (nonce inst) = 16"
    and t: "\<forall>p. length (siv_encrypt (siv_c2s inst) (nonce inst) p []) = 16"
    and room: "i_length info + 36
           + (1 + nat (int MAX_COOKIES - num_cookies inst))
             * field_size (take (c_length (cookies inst ! cookie_index inst))
                             (cookie (cookies inst ! cookie_index inst)))
           + 40 \<le> cap"
  shows "fst (NTS_GenerateRequestAuth cap siv_encrypt inst packet info) = 1"
proof -
  define c where "c = cookies inst ! cookie_index inst"
  define cb where "cb = take (c_length c) (cookie c)"
  define k where "k = nat (int MAX_COOKIES - num_cookies inst)"
  from n have nn: "\<not> needs_nke inst" by (simp add: needs_nke_def)
  from u l have lu: "take UNIQ_ID_LENGTH (uniq_id inst) = uniq_id inst"
    and ln: "take NONCE_LENGTH (nonce inst) = nonce inst"
    by (simp_all add: UNIQ_ID_LENGTH_def NONCE_LENGTH_def)
  have fu: "field_size (uniq_id inst) = 36"
    using u by (simp add: field_size_def get_padded_length_def)
  from room have r: "i_length info + 36 + (1 + k) * field_size cb + 40 \<le> cap"
    by (simp add: k_def cb_def c_def)
  define p1 where "p1 = packet\<lparr>ext := ext packet @ [(NTP_EF_NTS_UNIQUE_IDENTIFIER, uniq_id inst)]\<rparr>"
  define i1 where "i1 = info\<lparr>i_length := i_length info + field_size (uniq_id inst),
      i_ext_fields := i_ext_fields info + 1\<rparr>"
  have s1: "NEF_AddField cap packet info NTP_EF_NTS_UNIQUE_IDENTIFIER (uniq_id inst) = (True, p1, i1)"
    unfolding p1_def i1_def using r fu by (intro NEF_AddField_fits) simp
  have l1: "i_length i1 = i_length info + 36" by (simp add: i1_def fu)
  define p2 where "p2 = p1\<lparr>ext := ext p1 @ [(NTP_EF_NTS_COOKIE, cb)]\<rparr>"
  define i2 where "i2 = i1\<lparr>i_length := i_length i1 + field_size cb,
      i_ext_fields := i_ext_fields i1 + 1\<rparr>"
  have s2: "NEF_AddField cap p1 i1 NTP_EF_NTS_COOKIE cb = (True, p2, i2)"
    unfolding p2_def i2_def using r l1 by (intro NEF_AddField_fits) simp
  have l2: "i_length i2 = i_length info + 36 + field_size cb" by (simp add: i2_def l1)
  have "i_length i2 + k * field_size (take (c_length c) (cookie c)) \<le> cap"
    using r l2 by (simp add: cb_def)
  from add_placeholders_fits [OF this, of p2] obtain p3 i3 where
    s3: "add_placeholders cap k p2 i2 c = (True, p3, i3)" and
    l3: "i_length i3 = i_length i2 + k * field_size cb"
    by (auto simp: cb_def)
  define auth where "auth = htons (word_of_nat NONCE_LENGTH) @ htons (word_of_nat SIV_DIGEST_SIZE)
                   @ take NONCE_LENGTH (nonce inst)
                   @ take SIV_DIGEST_SIZE
                       (siv_encrypt (siv_c2s inst) (take NONCE_LENGTH (nonce inst)) p3 [])"
  have la: "length auth = 36"
    using l t by (simp add: auth_def ln htons_def NONCE_LENGTH_def SIV_DIGEST_SIZE_def)
  then have fa: "field_size auth = 40" by (simp add: field_size_def get_padded_length_def)
  have "i_length i3 + field_size auth \<le> cap"
    using r l3 l2 fa by simp
  from NEF_AddField_fits [OF this, of p3 NTP_EF_NTS_AUTH_AND_EEF]
  have s4: "NEF_AddField cap p3 i3 NTP_EF_NTS_AUTH_AND_EEF auth
      = (True, p3\<lparr>ext := ext p3 @ [(NTP_EF_NTS_AUTH_AND_EEF, auth)]\<rparr>,
         i3\<lparr>i_length := i_length i3 + field_size auth, i_ext_fields := i_ext_fields i3 + 1\<rparr>)" .
  show ?thesis
    unfolding NTS_GenerateRequestAuth_def Let_def lu
    using nn s1 s2 s3 s4
    by (simp add: c_def [symmetric] cb_def [symmetric] k_def [symmetric] auth_def [symmetric])
qed

lemma response_auth_succeeds:
  assumes "i_mode req_info = MODE_CLIENT" and "i_mode res_info = MODE_SERVER"
    and room: "i_length res_info
           + sum_list (map (\<lambda>f. field_size (snd f)) (concat (map response_to (ext request))))
           \<le> cap"
  shows "\<exists>res_info'. NTS_GenerateResponseAuth cap request req_info response res_info
           = (1, response\<lparr>ext := ext response @ concat (map response_to (ext request))\<rparr>, res_info')"
proof -
  obtain ok r i where rf: "response_fields cap (ext request) response res_info = (ok, r, i)"
    by (cases "response_fields cap (ext request) response res_info")
  from response_fields_fits [OF room, of response] rf have ok: "ok" by simp
  from response_fields_ext [OF rf [unfolded eqTrueI [OF ok]]]
  have "r = response\<lparr>ext := ext response @ concat (map response_to (ext request))\<rparr>" .
  with rf ok assms(1,2) show ?thesis
    by (simp add: NTS_GenerateResponseAuth_def response_auth_loop_fields)
qed

section \<open>Claims on the record codec\<close>

text \<open>
  C3 (amended). \<^verbatim>\<open>check_message_format\<close> iterates over the records of the buffer.
  When the buffer is empty or iteration stops before all \<open>length\<close> bytes are consumed,
  it returns Error if \<open>eof\<close> is set and Incomplete otherwise; when every byte was
  consumed, it returns Ok if the last record is a critical End-of-Message with empty
  body and Error otherwise. In particular an empty buffer yields Incomplete while
  \<open>eof\<close> is false (Error only once \<open>eof\<close> is set), and a buffer holding only a
  critical End-of-Message yields Ok.
\<close>

theorem check_message_format_outcome:
  "snd (check_message_format loc message) =
     (case records_of (data message) of
        (rs, left) \<Rightarrow>
          if data message = [] \<or> left \<noteq> []
          then (if eof message then MSG_ERROR else MSG_INCOMPLETE)
          else if last rs = EoM then MSG_OK else MSG_ERROR)
   \<and> snd (check_message_format loc (message\<lparr>data := []\<rparr>))
       = (if eof message then MSG_ERROR else MSG_INCOMPLETE)
   \<and> snd (check_message_format loc (message\<lparr>data := [0x80, 0, 0, 0]\<rparr>)) = MSG_OK"
  by (simp add: check_message_format_records records_of_Nil records_of_EoM)

theorem check_message_format_outcome_witness:
  "snd (check_message_format (False, 0, 0)
     \<lparr>sent = 0, eof = False, parsed = 0, data = [0x80, 1, 0, 2, 0, 0, 0x80, 0, 0, 0]\<rparr>) = MSG_OK"
  using check_message_format_outcome [of "(False, 0, 0)"
     "\<lparr>sent = 0, eof = False, parsed = 0, data = [0x80, 1, 0, 2, 0, 0, 0x80, 0, 0, 0]\<rparr>"]
  by (simp add: records_of.simps next_record_def ntohs_def EoM_def RECORD_END_OF_MESSAGE_def)

text \<open>
  C3 as stated fails: the empty buffer with \<open>eof\<close> false is reported Incomplete, not
  Error (\<^verbatim>\<open>message->length == 0\<close> takes the branch
  \<^verbatim>\<open>return message->eof ? MSG_ERROR : MSG_INCOMPLETE\<close>).
\<close>

theorem check_message_format_empty_counterexample:
  "snd (check_message_format (False, 0, 0) \<lparr>sent = 0, eof = False, parsed = 0, data = []\<rparr>)
     = MSG_INCOMPLETE"
  by (simp add: check_message_format_records records_of_Nil)

text \<open>
  C4 (amended). Every vector of records that \<^verbatim>\<open>add_record\<close> can encode into the
  16384-byte buffer together with one terminating critical End-of-Message (which
  bounds every body by 65535) is accepted: \<^verbatim>\<open>check_message_format\<close> returns Ok,
  whether or not the vector itself contains End-of-Message records. A message with
  more than one End-of-Message record is not an Error.
\<close>

theorem encoded_message_ok:
  assumes "sum_list (map (\<lambda>r. 4 + length (r_body r)) rs) + 4 \<le> MAX_MESSAGE_LENGTH"
  shows "\<exists>m. add_records (reset_message m0) (rs @ [EoM]) = Some m
             \<and> snd (check_message_format loc m) = MSG_OK"
proof -
  have "length (data (reset_message m0)) + sum_list (map (\<lambda>r. 4 + length (r_body r)) (rs @ [EoM]))
          \<le> MAX_MESSAGE_LENGTH"
    using assms by (simp add: reset_message_def EoM_def)
  from add_records_fits [OF this] obtain m where
    m: "add_records (reset_message m0) (rs @ [EoM]) = Some m" by blast
  from add_records_wire [OF m] have
    d: "data m = concat (map wire (rs @ [EoM]))" and
    l: "\<forall>r \<in> set (rs @ [EoM]). length (r_body r) \<le> 0xffff"
    by (simp_all add: reset_message_def)
  have ne: "data m \<noteq> []" unfolding d by (simp add: wire_def htons_def)
  have "records_of (data m) = (map as_read (rs @ [EoM]), [])"
    unfolding d by (rule records_of_concat_wire [OF l])
  with ne have "snd (check_message_format loc m) = MSG_OK"
    by (simp add: check_message_format_records as_read_EoM)
  with m show ?thesis by blast
qed

theorem encoded_message_ok_witness:
  "add_records (reset_message \<lparr>sent = 0, eof = False, parsed = 0, data = []\<rparr>) ([EoM] @ [EoM])
     = Some \<lparr>sent = 0, eof = False, parsed = 0, data = [0x80, 0, 0, 0, 0x80, 0, 0, 0]\<rparr>
   \<and> snd (check_message_format (False, 0, 0)
        \<lparr>sent = 0, eof = False, parsed = 0, data = [0x80, 0, 0, 0, 0x80, 0, 0, 0]\<rparr>) = MSG_OK"
proof -
  have h: "sum_list (map (\<lambda>r. 4 + length (r_body r)) [EoM]) + 4 \<le> MAX_MESSAGE_LENGTH"
    by (simp add: EoM_def MAX_MESSAGE_LENGTH_def)
  have e: "add_records (reset_message \<lparr>sent = 0, eof = False, parsed = 0, data = []\<rparr>) ([EoM] @ [EoM])
     = Some \<lparr>sent = 0, eof = False, parsed = 0, data = [0x80, 0, 0, 0, 0x80, 0, 0, 0]\<rparr>"
    by (simp add: add_record_def reset_message_def EoM_def htons_def RECORD_END_OF_MESSAGE_def
          MAX_MESSAGE_LENGTH_def)
  from encoded_message_ok [OF h, of "\<lparr>sent = 0, eof = False, parsed = 0, data = []\<rparr>" "(False, 0, 0)"]
  show ?thesis unfolding e by simp
qed

text \<open>
  C4 as stated fails: the vector \<open>[EoM]\<close> contains an End-of-Message, its encoding with
  the terminating End-of-Message holds two of them, and the result is Ok
  (\<^verbatim>\<open>check_message_format\<close> looks at the last record only).
\<close>

theorem two_end_of_message_counterexample:
  "add_records (reset_message \<lparr>sent = 0, eof = False, parsed = 0, data = []\<rparr>) ([EoM] @ [EoM])
     = Some \<lparr>sent = 0, eof = False, parsed = 0, data = [0x80, 0, 0, 0, 0x80, 0, 0, 0]\<rparr>
   \<and> snd (check_message_format (False, 0, 0)
        \<lparr>sent = 0, eof = False, parsed = 0, data = [0x80, 0, 0, 0, 0x80, 0, 0, 0]\<rparr>) = MSG_OK
   \<and> EoM \<in> set [EoM]"
  by (simp add: add_record_def reset_message_def EoM_def htons_def RECORD_END_OF_MESSAGE_def
        MAX_MESSAGE_LENGTH_def check_message_format_records records_of.simps next_record_def ntohs_def)

section \<open>Claims on request processing\<close>

text \<open>
  C6 (amended). \<^verbatim>\<open>process_request\<close> stops at the first record that raises an error.
  It produces BadRequest when no Next-Protocol record is present, and when the record
  it stops at is an Error, Warning or Cookie record. When the record it stops at has
  a type its switch does not name (above 5) and the critical bit set, it produces
  UnrecognizedCriticalRecord if a Next-Protocol record was accepted before that
  record, and BadRequest if none was. An End-of-Message record leaves every variable
  of the loop as it was, so it never causes an error by itself.
\<close>

theorem process_request_error:
  "((\<forall>x \<in> set (fst (records_of (data message))). r_type x \<noteq> RECORD_NEXT_PROTOCOL)
      \<longrightarrow> pr_error (process_request data0 message) = ERROR_BAD_REQUEST)
   \<and> (fst (records_of (data message)) = pre @ r # post
        \<and> q_error (request_records (request_init data0) pre) = ERROR_NONE
      \<longrightarrow> (r_type r = RECORD_ERROR \<or> r_type r = RECORD_WARNING \<or> r_type r = RECORD_COOKIE
             \<longrightarrow> pr_error (process_request data0 message) = ERROR_BAD_REQUEST)
          \<and> (r_critical r \<and> RECORD_COOKIE < r_type r
             \<longrightarrow> pr_error (process_request data0 message)
                  = (if \<exists>x \<in> set pre. r_type x = RECORD_NEXT_PROTOCOL
                     then ERROR_UNRECOGNIZED_CRITICAL_RECORD else ERROR_BAD_REQUEST)))
   \<and> request_switch v critical RECORD_END_OF_MESSAGE len = v"
proof (intro conjI impI)
  assume "\<forall>x \<in> set (fst (records_of (data message))). r_type x \<noteq> RECORD_NEXT_PROTOCOL"
  with request_records_has_np [of "request_init data0" "fst (records_of (data message))"]
  have "\<not> q_has_next_protocol (request_records (request_init data0) (fst (records_of (data message))))"
    by (auto simp: request_init_def)
  then show "pr_error (process_request data0 message) = ERROR_BAD_REQUEST"
    by (simp add: process_request_records Let_def)
next
  assume a: "fst (records_of (data message)) = pre @ r # post
        \<and> q_error (request_records (request_init data0) pre) = ERROR_NONE"
  assume t: "r_type r = RECORD_ERROR \<or> r_type r = RECORD_WARNING \<or> r_type r = RECORD_COOKIE"
  define w where "w = request_records (request_init data0) pre"
  from t have "q_error (request_record w r) = ERROR_BAD_REQUEST"
    by (auto simp: request_record_def request_switch_def RECORD_ERROR_def RECORD_WARNING_def
        RECORD_COOKIE_def RECORD_NEXT_PROTOCOL_def RECORD_AEAD_ALGORITHM_def)
  moreover have "request_records (request_init data0) (pre @ r # post)
      = request_records (request_record w r) post"
    using a by (simp add: request_records_append w_def)
  ultimately have "q_error (request_records (request_init data0) (pre @ r # post)) = ERROR_BAD_REQUEST"
    by (simp add: request_records_stuck ERROR_BAD_REQUEST_def ERROR_NONE_def)
  with a show "pr_error (process_request data0 message) = ERROR_BAD_REQUEST"
    by (simp add: process_request_records Let_def)
next
  assume a: "fst (records_of (data message)) = pre @ r # post
        \<and> q_error (request_records (request_init data0) pre) = ERROR_NONE"
  assume t: "r_critical r \<and> RECORD_COOKIE < r_type r"
  define w where "w = request_records (request_init data0) pre"
  from t have rr: "request_record w r = w\<lparr>q_data := q_data (request_record w r),
       q_error := ERROR_UNRECOGNIZED_CRITICAL_RECORD\<rparr>"
    by (auto simp: request_record_def request_switch_def RECORD_ERROR_def RECORD_WARNING_def
        RECORD_COOKIE_def RECORD_NEXT_PROTOCOL_def RECORD_AEAD_ALGORITHM_def
        RECORD_END_OF_MESSAGE_def)
  then have e: "q_error (request_record w r) = ERROR_UNRECOGNIZED_CRITICAL_RECORD"
    and h: "q_has_next_protocol (request_record w r) = q_has_next_protocol w"
    by (metis request_vars.select_convs request_vars.update_convs request_vars.surjective)+
  have "request_records (request_init data0) (pre @ r # post)
      = request_records (request_record w r) post"
    using a by (simp add: request_records_append w_def)
  also have "\<dots> = request_record w r"
    using e by (simp add: request_records_stuck ERROR_UNRECOGNIZED_CRITICAL_RECORD_def ERROR_NONE_def)
  finally have fin: "request_records (request_init data0) (fst (records_of (data message)))
      = request_record w r" using a by simp
  have "q_has_next_protocol w = (\<exists>x \<in> set pre. r_type x = RECORD_NEXT_PROTOCOL)"
    using request_records_np_seen [of "request_init data0" pre] a
    by (simp add: w_def request_init_def)
  with e h show "pr_error (process_request data0 message)
                  = (if \<exists>x \<in> set pre. r_type x = RECORD_NEXT_PROTOCOL
                     then ERROR_UNRECOGNIZED_CRITICAL_RECORD else ERROR_BAD_REQUEST)"
    by (simp add: process_request_records Let_def fin)
next
  show "request_switch v critical RECORD_END_OF_MESSAGE len = v"
    by (simp add: request_switch_def RECORD_ERROR_def RECORD_WARNING_def
        RECORD_COOKIE_def RECORD_NEXT_PROTOCOL_def RECORD_AEAD_ALGORITHM_def
        RECORD_END_OF_MESSAGE_def)
qed


theorem process_request_error_witness:
  "pr_error (process_request (replicate 256 0)
      \<lparr>sent = 0, eof = False, parsed = 0,
       data = [0x80, 1, 0, 2, 0, 0, 0x80, 0x64, 0, 0, 0x80, 0, 0, 0]\<rparr>)
     = ERROR_UNRECOGNIZED_CRITICAL_RECORD
   \<and> pr_error (process_request (replicate 256 0)
      \<lparr>sent = 0, eof = False, parsed = 0, data = [0x80, 0, 0, 0]\<rparr>) = ERROR_BAD_REQUEST"
proof -
  let ?m = "\<lparr>sent = 0, eof = False, parsed = 0,
       data = [0x80, 1, 0, 2, 0, 0, 0x80, 0x64, 0, 0, 0x80, 0, 0, 0]\<rparr>"
  let ?np = "\<lparr>r_critical = True, r_type = 1, r_body = [0, 0]\<rparr>"
  let ?u = "\<lparr>r_critical = True, r_type = 100, r_body = []\<rparr>"
  have rs: "fst (records_of (data ?m)) = [?np] @ ?u # [EoM]"
    by (simp add: records_of.simps next_record_def ntohs_def EoM_def RECORD_END_OF_MESSAGE_def)
  have pre: "q_error (request_records (request_init (replicate 256 0)) [?np]) = ERROR_NONE"
    by (simp add: request_init_def request_record_def request_switch_def RECORD_NEXT_PROTOCOL_def
          ERROR_NONE_def)
  have u: "r_critical ?u \<and> RECORD_COOKIE < r_type ?u" by (simp add: RECORD_COOKIE_def)
  have np: "\<exists>x \<in> set [?np]. r_type x = RECORD_NEXT_PROTOCOL" by (simp add: RECORD_NEXT_PROTOCOL_def)
  have e: "\<forall>x \<in> set (fst (records_of
      (data \<lparr>sent = 0, eof = False, parsed = 0, data = [0x80, 0, 0, 0]\<rparr>))). r_type x \<noteq> RECORD_NEXT_PROTOCOL"
    by (simp add: records_of_EoM EoM_def RECORD_END_OF_MESSAGE_def RECORD_NEXT_PROTOCOL_def)
  from process_request_error [of ?m "replicate 256 0" "[?np]" ?u "[EoM]"] rs pre u np
  have "pr_error (process_request (replicate 256 0) ?m) = ERROR_UNRECOGNIZED_CRITICAL_RECORD"
    by simp
  moreover from process_request_error
     [of "\<lparr>sent = 0, eof = False, parsed = 0, data = [0x80, 0, 0, 0]\<rparr>" "replicate 256 0"] e
  have "pr_error (process_request (replicate 256 0)
      \<lparr>sent = 0, eof = False, parsed = 0, data = [0x80, 0, 0, 0]\<rparr>) = ERROR_BAD_REQUEST"
    by blast
  ultimately show ?thesis by simp
qed

text \<open>
  C6 as stated fails: a request whose first record is critical and of unknown type
  (100) sets \<^verbatim>\<open>error = ERROR_UNRECOGNIZED_CRITICAL_RECORD\<close>, the loop ends, and
  \<^verbatim>\<open>if (!has_next_protocol) error = ERROR_BAD_REQUEST\<close> replaces it.
\<close>

theorem unknown_critical_first_counterexample:
  "fst (records_of [0x80, 0x64, 0, 0, 0x80, 0, 0, 0])
     = [\<lparr>r_critical = True, r_type = 100, r_body = []\<rparr>, EoM]
   \<and> pr_error (process_request (replicate 256 0)
      \<lparr>sent = 0, eof = False, parsed = 0, data = [0x80, 0x64, 0, 0, 0x80, 0, 0, 0]\<rparr>)
     = ERROR_BAD_REQUEST
   \<and> ERROR_BAD_REQUEST \<noteq> ERROR_UNRECOGNIZED_CRITICAL_RECORD"
  by (simp add: process_request_records records_of.simps next_record_def ntohs_def EoM_def
        RECORD_END_OF_MESSAGE_def request_init_def request_record_def request_switch_def
        RECORD_NEXT_PROTOCOL_def RECORD_AEAD_ALGORITHM_def RECORD_ERROR_def RECORD_WARNING_def
        RECORD_COOKIE_def ERROR_NONE_def ERROR_BAD_REQUEST_def
        ERROR_UNRECOGNIZED_CRITICAL_RECORD_def Let_def)

section \<open>Claims on response processing\<close>

text \<open>
  C10. \<^verbatim>\<open>process_response\<close>, given an array with room for \<open>max_cookies\<close> cookies, never
  stores more than \<open>max_cookies\<close> of them (the count and the return value are bounded,
  and the entries from index \<open>max_cookies\<close> on are untouched), and every stored cookie
  has a length of at most \<^verbatim>\<open>NKE_MAX_COOKIE_LENGTH\<close>. A Cookie record whose body is
  longer, or one met when \<open>max_cookies\<close> cookies are stored, changes nothing but the
  scratch array \<^verbatim>\<open>data\<close>: it is skipped and raises no error.
\<close>

theorem process_response_cookie_bounds:
  assumes "max_cookies \<le> length cookie_array"
  shows "ps_num_cookies (process_response mcl f data0 message cookie_array max_cookies addr port)
           \<le> max_cookies
     \<and> ps_return (process_response mcl f data0 message cookie_array max_cookies addr port)
           \<le> max_cookies
     \<and> (\<forall>i < ps_num_cookies (process_response mcl f data0 message cookie_array max_cookies addr port).
           c_length (ps_cookies (process_response mcl f data0 message cookie_array max_cookies addr port) ! i)
             \<le> mcl)
     \<and> (\<forall>i \<ge> max_cookies.
           ps_cookies (process_response mcl f data0 message cookie_array max_cookies addr port) ! i
             = cookie_array ! i)
     \<and> (r_type r = RECORD_COOKIE \<and> (mcl < length (r_body r) \<or> max_cookies \<le> p_num_cookies v)
         \<longrightarrow> response_record mcl f max_cookies v r =
               v\<lparr>p_data := take (min (2 * (mcl div 2)) (length (r_body r))) (r_body r)
                     @ drop (min (2 * (mcl div 2)) (length (r_body r))) (p_data v)\<rparr>)"
proof -
  have "cookies_inv mcl max_cookies cookie_array (response_init data0 cookie_array addr port)"
    by (simp add: cookies_inv_def response_init_def)
  from cookies_inv_records [OF assms this]
  have "cookies_inv mcl max_cookies cookie_array
      (response_records mcl f max_cookies (response_init data0 cookie_array addr port)
         (fst (records_of (data message))))" .
  then show ?thesis
    using cookie_skipped [of r mcl max_cookies v f]
    by (simp add: process_response_records Let_def cookies_inv_def)
qed


theorem process_response_cookie_bounds_witness:
  "ps_num_cookies (process_response 4 (\<lambda>d n. None :: unit option) [0, 0, 0, 0]
      \<lparr>sent = 0, eof = False, parsed = 0,
       data = [0x80, 1, 0, 2, 0, 0,  0, 4, 0, 2, 0, 15,  0, 5, 0, 4, 1, 2, 3, 4,
               0, 5, 0, 6, 1, 2, 3, 4, 5, 6,  0x80, 0, 0, 0]\<rparr>
      [\<lparr>c_length = 0, cookie = []\<rparr>, \<lparr>c_length = 0, cookie = []\<rparr>] 2 None None) = 1
   \<and> ps_return (process_response 4 (\<lambda>d n. None :: unit option) [0, 0, 0, 0]
      \<lparr>sent = 0, eof = False, parsed = 0,
       data = [0x80, 1, 0, 2, 0, 0,  0, 4, 0, 2, 0, 15,  0, 5, 0, 4, 1, 2, 3, 4,
               0, 5, 0, 6, 1, 2, 3, 4, 5, 6,  0x80, 0, 0, 0]\<rparr>
      [\<lparr>c_length = 0, cookie = []\<rparr>, \<lparr>c_length = 0, cookie = []\<rparr>] 2 None None) = 1
   \<and> c_length (ps_cookies (process_response 4 (\<lambda>d n. None :: unit option) [0, 0, 0, 0]
      \<lparr>sent = 0, eof = False, parsed = 0,
       data = [0x80, 1, 0, 2, 0, 0,  0, 4, 0, 2, 0, 15,  0, 5, 0, 4, 1, 2, 3, 4,
               0, 5, 0, 6, 1, 2, 3, 4, 5, 6,  0x80, 0, 0, 0]\<rparr>
      [\<lparr>c_length = 0, cookie = []\<rparr>, \<lparr>c_length = 0, cookie = []\<rparr>] 2 None None) ! 0) \<le> 4"
proof -
  let ?m = "\<lparr>sent = 0, eof = False, parsed = 0,
       data = [0x80, 1, 0, 2, 0, 0,  0, 4, 0, 2, 0, 15,  0, 5, 0, 4, 1, 2, 3, 4,
               0, 5, 0, 6, 1, 2, 3, 4, 5, 6,  0x80, 0, 0, 0]\<rparr>"
  let ?c = "[\<lparr>c_length = 0, cookie = []\<rparr>, \<lparr>c_length = 0, cookie = []\<rparr>]"
  let ?res = "process_response 4 (\<lambda>d n. None :: unit option) [0, 0, 0, 0] ?m ?c 2 None None"
  have room: "2 \<le> length ?c" by simp
  have rs: "fst (records_of (data ?m)) =
      [\<lparr>r_critical = True, r_type = 1, r_body = [0, 0]\<rparr>,
       \<lparr>r_critical = False, r_type = 4, r_body = [0, 15]\<rparr>,
       \<lparr>r_critical = False, r_type = 5, r_body = [1, 2, 3, 4]\<rparr>,
       \<lparr>r_critical = False, r_type = 5, r_body = [1, 2, 3, 4, 5, 6]\<rparr>,
       EoM]"
    by (simp add: records_of.simps next_record_def ntohs_def EoM_def RECORD_END_OF_MESSAGE_def)
  have n: "ps_num_cookies ?res = 1" and r: "ps_return ?res = 1"
    unfolding process_response_records Let_def rs
    by (simp_all add: response_init_def response_record_def response_switch_def data16_def ntohs_def
          EoM_def RECORD_END_OF_MESSAGE_def RECORD_NEXT_PROTOCOL_def RECORD_AEAD_ALGORITHM_def
          RECORD_ERROR_def RECORD_WARNING_def RECORD_COOKIE_def ERROR_NONE_def
          ERROR_BAD_RESPONSE_def NEXT_PROTOCOL_NTPV4_def NEXT_PROTOCOL_NONE_def
          AEAD_AES_SIV_CMAC_256_def AEAD_NONE_def)
  from process_response_cookie_bounds [OF room, of 4 "\<lambda>d n. None :: unit option" "[0, 0, 0, 0]" ?m None None]
  have "\<forall>i < ps_num_cookies ?res. c_length (ps_cookies ?res ! i) \<le> 4" by blast
  with n have "c_length (ps_cookies ?res ! 0) \<le> 4" by simp
  with n r show ?thesis by simp
qed

section \<open>Claims on cookies and server keys\<close>

text \<open>
  C1. For all 32-byte keys C2S and S2C and any 16-byte nonce drawn during sealing,
  \<^verbatim>\<open>NKE_DecodeCookie\<close> opens the cookie produced by \<^verbatim>\<open>NKE_GenerateCookie\<close> and
  recovers exactly the original pair, provided the key that sealed it is still in
  its slot of the ring when the cookie is opened. The ring has its 4 slots before
  and after, and the SIV primitive is assumed to decrypt what it encrypted and to add
  a 16-byte tag.
\<close>

theorem cookie_roundtrip:
  assumes rt: "\<And>k n p. siv_decrypt k n [] (siv_encrypt k n [] p) = Some p"
    and len: "\<And>k n p. length (siv_encrypt k n [] p) = length p + 16"
    and nonce: "length rand_nonce = 16"
    and c2s: "k_length c2s = 32" "32 \<le> length (key c2s)"
    and s2c: "k_length s2c = 32" "32 \<le> length (key s2c)"
    and mcl: "100 \<le> mcl"
    and ring: "length (server_keys ring) = 4" "current_server_key ring < 4"
      "length (server_keys ring') = 4"
    and present: "server_keys ring' ! (unat (k_id (server_keys ring ! current_server_key ring)) mod 4)
                    = server_keys ring ! current_server_key ring"
  shows "\<exists>ck. NKE_GenerateCookie mcl siv_encrypt ring rand_nonce c2s s2c nke_cookie = Some ck
              \<and> NKE_DecodeCookie siv_decrypt ring' ck
                  = Some (\<lparr>k_length = 32, key = take 32 (key c2s)\<rparr>,
                          \<lparr>k_length = 32, key = take 32 (key s2c)\<rparr>)"
proof -
  define k where "k = server_keys ring ! current_server_key ring"
  define pt where "pt = take 32 (key c2s) @ take 32 (key s2c)"
  define ct where "ct = siv_encrypt (k_siv k) rand_nonce [] pt"
  define ck where "ck = nke_cookie\<lparr>c_length := 100,
      cookie := store_u32 (k_id k) @ rand_nonce @ ct @ drop 100 (cookie nke_cookie)\<rparr>"
  have gen: "NKE_GenerateCookie mcl siv_encrypt ring rand_nonce c2s s2c nke_cookie = Some ck"
    using c2s s2c mcl
    by (simp add: NKE_GenerateCookie_def Let_def ck_def ct_def pt_def k_def)
  have lpt: "length pt = 64" using c2s s2c by (simp add: pt_def)
  have lct: "length ct = 80" using len [of "k_siv k" rand_nonce pt] lpt by (simp add: ct_def)
  have l4: "length (store_u32 (k_id k)) = 4" by (simp add: store_u32_def)
  have kid: "load_u32 (cookie ck) = k_id k" by (simp add: ck_def load_store_u32)
  have n: "take 16 (drop 4 (cookie ck)) = rand_nonce"
    using l4 nonce by (simp add: ck_def)
  have c: "take 80 (drop 20 (cookie ck)) = ct"
    using l4 nonce lct by (simp add: ck_def)
  have slot: "server_keys ring' ! (unat (k_id k) mod MAX_SERVER_KEYS) = k"
    using present by (simp add: k_def MAX_SERVER_KEYS_def)
  have dec: "siv_decrypt (k_siv k) rand_nonce [] ct = Some pt"
    unfolding ct_def by (rule rt)
  have p1: "take 32 pt = take 32 (key c2s)" and p2: "take 32 (drop 32 pt) = take 32 (key s2c)"
    using c2s s2c by (simp_all add: pt_def)
  have "NKE_DecodeCookie siv_decrypt ring' ck
          = Some (\<lparr>k_length = 32, key = take 32 (key c2s)\<rparr>,
                  \<lparr>k_length = 32, key = take 32 (key s2c)\<rparr>)"
    unfolding NKE_DecodeCookie_def Let_def kid slot n c dec
    by (simp add: ck_def p1 p2)
  with gen show ?thesis by blast
qed

theorem cookie_roundtrip_witness:
  "\<exists>ck. NKE_GenerateCookie 100 (\<lambda>k n a p. p @ replicate 16 0)
           \<lparr>server_keys = [\<lparr>k_id = 0, k_siv = []\<rparr>, \<lparr>k_id = 0x11223345, k_siv = replicate 32 9\<rparr>,
                           \<lparr>k_id = 0, k_siv = []\<rparr>, \<lparr>k_id = 0, k_siv = []\<rparr>],
            current_server_key = 1\<rparr>
           (replicate 16 7) \<lparr>k_length = 32, key = replicate 32 0x11\<rparr>
           \<lparr>k_length = 32, key = replicate 32 0x22\<rparr> \<lparr>c_length = 0, cookie = []\<rparr> = Some ck
      \<and> NKE_DecodeCookie (\<lambda>k n a c. Some (take (length c - 16) c))
           \<lparr>server_keys = [\<lparr>k_id = 0, k_siv = []\<rparr>, \<lparr>k_id = 0x11223345, k_siv = replicate 32 9\<rparr>,
                           \<lparr>k_id = 0, k_siv = []\<rparr>, \<lparr>k_id = 0, k_siv = []\<rparr>],
            current_server_key = 1\<rparr> ck
          = Some (\<lparr>k_length = 32, key = replicate 32 0x11\<rparr>,
                  \<lparr>k_length = 32, key = replicate 32 0x22\<rparr>)"
  using cookie_roundtrip [of "\<lambda>k n a c. Some (take (length c - 16) c)" "\<lambda>k n a p. p @ replicate 16 0"
      "replicate 16 7" "\<lparr>k_length = 32, key = replicate 32 0x11\<rparr>"
      "\<lparr>k_length = 32, key = replicate 32 0x22\<rparr>" 100
      "\<lparr>server_keys = [\<lparr>k_id = 0, k_siv = []\<rparr>, \<lparr>k_id = 0x11223345, k_siv = replicate 32 9\<rparr>,
                           \<lparr>k_id = 0, k_siv = []\<rparr>, \<lparr>k_id = 0, k_siv = []\<rparr>],
            current_server_key = 1\<rparr>"
      "\<lparr>server_keys = [\<lparr>k_id = 0, k_siv = []\<rparr>, \<lparr>k_id = 0x11223345, k_siv = replicate 32 9\<rparr>,
                           \<lparr>k_id = 0, k_siv = []\<rparr>, \<lparr>k_id = 0, k_siv = []\<rparr>],
            current_server_key = 1\<rparr>"
      "\<lparr>c_length = 0, cookie = []\<rparr>"]
  by simp

text \<open>
  C5. After a rotation by \<^verbatim>\<open>generate_server_key\<close> the id of the newly installed key
  has its low 2 bits equal to the new current index, so the slot \<open>id mod 4\<close> holds
  that very key; the other slots are unchanged. \<^verbatim>\<open>NKE_DecodeCookie\<close> returns 0 for
  any cookie whose \<^verbatim>\<open>key_id\<close> differs from the id stored in slot \<open>key_id mod 4\<close>.
\<close>

theorem server_key_slot:
  assumes "length (server_keys ring) = 4"
  shows "current_server_key (generate_server_key rand_key rand_id ring)
           = (current_server_key ring + 1) mod 4
     \<and> k_id (server_keys (generate_server_key rand_key rand_id ring)
               ! current_server_key (generate_server_key rand_key rand_id ring)) AND 3
         = word_of_nat (current_server_key (generate_server_key rand_key rand_id ring))
     \<and> server_keys (generate_server_key rand_key rand_id ring)
           ! (unat (k_id (server_keys (generate_server_key rand_key rand_id ring)
                 ! current_server_key (generate_server_key rand_key rand_id ring))) mod 4)
         = server_keys (generate_server_key rand_key rand_id ring)
             ! current_server_key (generate_server_key rand_key rand_id ring)
     \<and> (\<forall>i. i \<noteq> current_server_key (generate_server_key rand_key rand_id ring)
           \<longrightarrow> server_keys (generate_server_key rand_key rand_id ring) ! i = server_keys ring ! i)
     \<and> (load_u32 (cookie ck) \<noteq> k_id (server_keys r ! (unat (load_u32 (cookie ck)) mod 4))
           \<longrightarrow> NKE_DecodeCookie siv_decrypt r ck = None)"
proof -
  define cur where "cur = (current_server_key ring + 1) mod 4"
  have cur: "cur < 4" by (simp add: cur_def)
  define k where "k = \<lparr>k_id = (rand_id AND push_bit 2 (- 1)) OR word_of_nat cur, k_siv = rand_key\<rparr>"
  have g: "generate_server_key rand_key rand_id ring
      = ring\<lparr>current_server_key := cur, server_keys := (server_keys ring)[cur := k]\<rparr>"
    by (simp add: generate_server_key_def Let_def MAX_SERVER_KEYS_def cur_def k_def)
  have at: "(server_keys ring)[cur := k] ! cur = k" using assms cur by simp
  have idk: "k_id k = (rand_id AND push_bit 2 (- 1)) OR word_of_nat cur" by (simp add: k_def)
  have low: "k_id k AND 3 = word_of_nat cur" and slot: "unat (k_id k) mod 4 = cur"
    unfolding idk by (rule key_id_low_bits [OF cur])+
  show ?thesis
    unfolding g using decode_unknown_key [of ck r siv_decrypt]
    by (simp add: at low slot) (simp add: cur_def)
qed

theorem server_key_slot_witness:
  "current_server_key (generate_server_key (replicate 32 1) 0xDEADBEEF
      \<lparr>server_keys = replicate 4 \<lparr>k_id = 0, k_siv = []\<rparr>, current_server_key = 0\<rparr>) = 1
   \<and> k_id (server_keys (generate_server_key (replicate 32 1) 0xDEADBEEF
      \<lparr>server_keys = replicate 4 \<lparr>k_id = 0, k_siv = []\<rparr>, current_server_key = 0\<rparr>) ! 1) AND 3 = 1
   \<and> NKE_DecodeCookie (\<lambda>k n a c. Some (take (length c - 16) c))
        \<lparr>server_keys = replicate 4 \<lparr>k_id = 0, k_siv = []\<rparr>, current_server_key = 0\<rparr>
        \<lparr>c_length = 100, cookie = store_u32 0xDEADBEED @ replicate 96 0\<rparr> = None"
proof -
  let ?ring = "\<lparr>server_keys = replicate 4 \<lparr>k_id = 0, k_siv = []\<rparr>, current_server_key = 0\<rparr>"
  let ?ck = "\<lparr>c_length = 100, cookie = store_u32 0xDEADBEED @ replicate 96 0\<rparr>"
  have l: "length (server_keys ?ring) = 4" by simp
  have c: "current_server_key (generate_server_key (replicate 32 1) 0xDEADBEEF ?ring) = 1"
    by (simp add: generate_server_key_def MAX_SERVER_KEYS_def)
  have u: "load_u32 (cookie ?ck) \<noteq> k_id (server_keys ?ring ! (unat (load_u32 (cookie ?ck)) mod 4))"
    by (simp add: load_store_u32)
  from server_key_slot [OF l, where rand_key = "replicate 32 1" and rand_id = "0xDEADBEEF"
      and ck = ?ck and r = ?ring and siv_decrypt = "\<lambda>k n a c. Some (take (length c - 16) c)"] c u
  show ?thesis by simp
qed

section \<open>Claims on NTS-NTP authentication\<close>

text \<open>
  C2 (amended). \<^verbatim>\<open>NTS_CheckRequestAuth\<close> returns 0 when the packet has no extension
  field or is not in client mode, when it contains a second NTS-Cookie field, or
  when an Authenticator-and-Encrypted-EF field does not parse (its body is shorter than
  4 bytes, or the padded nonce and ciphertext lengths exceed the body length). It
  returns 1 for a client-mode packet with at least one extension field, exactly one
  NTS-Cookie field, and only well-formed Authenticator fields, possibly none: the
  cookie is not opened and no tag is verified.
\<close>

theorem check_request_auth_decision:
  "(i_ext_fields info = 0 \<or> i_mode info \<noteq> MODE_CLIENT
      \<or> 1 < length (filter (is_type NTP_EF_NTS_COOKIE) (ext packet))
      \<or> \<not> auth_fields_parse (ext packet)
     \<longrightarrow> NTS_CheckRequestAuth packet info = 0)
   \<and> (i_ext_fields info \<noteq> 0 \<and> i_mode info = MODE_CLIENT
      \<and> length (filter (is_type NTP_EF_NTS_COOKIE) (ext packet)) = 1
      \<and> auth_fields_parse (ext packet)
     \<longrightarrow> NTS_CheckRequestAuth packet info = 1)"
  using NTS_CheckRequestAuth_fields [of packet info] NTS_CheckRequestAuth_result [of packet info]
  by auto

theorem check_request_auth_decision_witness:
  "NTS_CheckRequestAuth
     \<lparr>header = replicate 48 0,
      ext = [(NTP_EF_NTS_UNIQUE_IDENTIFIER, replicate 32 0xAB),
             (NTP_EF_NTS_COOKIE, replicate 100 1),
             (NTP_EF_NTS_COOKIE_PLACEHOLDER, replicate 100 1),
             (NTP_EF_NTS_AUTH_AND_EEF, [0, 16, 0, 16] @ replicate 32 0)]\<rparr>
     \<lparr>i_length = 48 + 36 + 104 + 104 + 40, i_mode = MODE_CLIENT, i_ext_fields = 4\<rparr> = 1
   \<and> NTS_CheckRequestAuth
     \<lparr>header = replicate 48 0,
      ext = [(NTP_EF_NTS_COOKIE, replicate 100 1), (NTP_EF_NTS_COOKIE, replicate 100 2)]\<rparr>
     \<lparr>i_length = 48 + 104 + 104, i_mode = MODE_CLIENT, i_ext_fields = 2\<rparr> = 0"
proof -
  let ?p = "\<lparr>header = replicate 48 0,
      ext = [(NTP_EF_NTS_UNIQUE_IDENTIFIER, replicate 32 0xAB),
             (NTP_EF_NTS_COOKIE, replicate 100 1),
             (NTP_EF_NTS_COOKIE_PLACEHOLDER, replicate 100 1),
             (NTP_EF_NTS_AUTH_AND_EEF, [0, 16, 0, 16] @ replicate 32 0)]\<rparr>"
  let ?i = "\<lparr>i_length = 48 + 36 + 104 + 104 + 40, i_mode = MODE_CLIENT, i_ext_fields = 4\<rparr>"
  let ?q = "\<lparr>header = replicate 48 0,
      ext = [(NTP_EF_NTS_COOKIE, replicate 100 1), (NTP_EF_NTS_COOKIE, replicate 100 2)]\<rparr>"
  let ?j = "\<lparr>i_length = 48 + 104 + 104, i_mode = MODE_CLIENT, i_ext_fields = 2\<rparr>"
  have a: "i_ext_fields ?i \<noteq> 0 \<and> i_mode ?i = MODE_CLIENT
      \<and> length (filter (is_type NTP_EF_NTS_COOKIE) (ext ?p)) = 1
      \<and> auth_fields_parse (ext ?p)"
    by (simp add: auth_fields_parse_def parse_auth_and_eef_def ntohs_def get_padded_length_def)
  have b: "1 < length (filter (is_type NTP_EF_NTS_COOKIE) (ext ?q))" by simp
  from check_request_auth_decision [of ?i ?p] a have "NTS_CheckRequestAuth ?p ?i = 1" by blast
  moreover from check_request_auth_decision [of ?j ?q] b have "NTS_CheckRequestAuth ?q ?j = 0" by blast
  ultimately show ?thesis by simp
qed

text \<open>
  C2 as stated fails: a client-mode request carrying a Unique-Identifier and one
  cookie, and no Authenticator-and-Encrypted-EF field at all, is accepted.
\<close>

theorem request_without_authenticator_counterexample:
  "NTS_CheckRequestAuth
     \<lparr>header = replicate 48 0,
      ext = [(NTP_EF_NTS_UNIQUE_IDENTIFIER, replicate 32 0xAB),
             (NTP_EF_NTS_COOKIE, replicate 100 1)]\<rparr>
     \<lparr>i_length = 48 + 36 + 104, i_mode = MODE_CLIENT, i_ext_fields = 2\<rparr> = 1
   \<and> filter (is_type NTP_EF_NTS_AUTH_AND_EEF)
        [(NTP_EF_NTS_UNIQUE_IDENTIFIER, replicate 32 0xAB),
         (NTP_EF_NTS_COOKIE, replicate 100 (1 :: byte))] = []"
  by (simp add: NTS_CheckRequestAuth_fields auth_fields_parse_def)

text \<open>
  C9 (amended). In \<^verbatim>\<open>NTS_GenerateResponseAuth\<close> the Unique-Identifier case falls
  through into the cookie case: for every field of the request, in order, the
  response gains the fields \<open>response_to\<close> lists, that is the echoed identifier
  followed by one cookie field for a Unique-Identifier, and one cookie field for a
  Cookie or a Cookie-Placeholder. Every cookie field so appended is the constant 100
  zero bytes of \<^verbatim>\<open>add_response_cookie\<close>, not a fresh cookie. When the request is in
  client mode, the response in server mode, and the response has room for these
  fields, the call returns 1 and the response is extended by exactly them; so a
  request with one Unique-Identifier, one Cookie and \<open>N\<close> Cookie-Placeholders adds
  exactly \<open>N + 2\<close> cookie fields.
\<close>

theorem response_cookie_per_field:
  "(i_mode req_info = MODE_CLIENT \<and> i_mode res_info = MODE_SERVER
      \<and> i_length res_info
           + sum_list (map (\<lambda>f. field_size (snd f)) (concat (map response_to (ext request))))
           \<le> cap
     \<longrightarrow> fst (NTS_GenerateResponseAuth cap request req_info response res_info) = 1
        \<and> fst (snd (NTS_GenerateResponseAuth cap request req_info response res_info))
            = response\<lparr>ext := ext response @ concat (map response_to (ext request))\<rparr>)
   \<and> (NTS_GenerateResponseAuth cap request req_info response res_info
         = (1, response', res_info')
     \<longrightarrow> ext response' = ext response @ concat (map response_to (ext request))
     \<and> filter (is_type NTP_EF_NTS_UNIQUE_IDENTIFIER) (ext response')
         = filter (is_type NTP_EF_NTS_UNIQUE_IDENTIFIER) (ext response)
           @ filter (is_type NTP_EF_NTS_UNIQUE_IDENTIFIER) (ext request)
     \<and> length (filter (is_type NTP_EF_NTS_COOKIE) (ext response'))
         = length (filter (is_type NTP_EF_NTS_COOKIE) (ext response))
           + length (filter (is_type NTP_EF_NTS_UNIQUE_IDENTIFIER) (ext request))
           + length (filter (is_type NTP_EF_NTS_COOKIE) (ext request))
           + length (filter (is_type NTP_EF_NTS_COOKIE_PLACEHOLDER) (ext request))
     \<and> (length (filter (is_type NTP_EF_NTS_UNIQUE_IDENTIFIER) (ext request)) = 1
        \<and> length (filter (is_type NTP_EF_NTS_COOKIE) (ext request)) = 1
        \<and> length (filter (is_type NTP_EF_NTS_COOKIE_PLACEHOLDER) (ext request)) = N
        \<longrightarrow> length (filter (is_type NTP_EF_NTS_COOKIE) (ext response'))
            = length (filter (is_type NTP_EF_NTS_COOKIE) (ext response)) + N + 2))
   \<and> (\<forall>f \<in> set (concat (map response_to (ext request))).
         fst f = NTP_EF_NTS_COOKIE \<longrightarrow> snd f = replicate 100 0)"
proof (intro conjI impI ballI)
  assume a: "i_mode req_info = MODE_CLIENT \<and> i_mode res_info = MODE_SERVER
      \<and> i_length res_info
           + sum_list (map (\<lambda>f. field_size (snd f)) (concat (map response_to (ext request))))
           \<le> cap"
  then obtain res_info' where g: "NTS_GenerateResponseAuth cap request req_info response res_info
           = (1, response\<lparr>ext := ext response @ concat (map response_to (ext request))\<rparr>, res_info')"
    using response_auth_succeeds [of req_info res_info request cap response] by blast
  show "fst (NTS_GenerateResponseAuth cap request req_info response res_info) = 1"
    by (simp add: g)
  show "fst (snd (NTS_GenerateResponseAuth cap request req_info response res_info))
            = response\<lparr>ext := ext response @ concat (map response_to (ext request))\<rparr>"
    by (simp add: g)
next
  fix f assume "f \<in> set (concat (map response_to (ext request)))" "fst f = NTP_EF_NTS_COOKIE"
  then show "snd f = replicate 100 0" by (rule response_to_cookie_constant)
qed (use response_auth_shape [of cap request req_info response res_info response' res_info'] in blast)+

theorem response_cookie_per_field_witness:
  "fst (NTS_GenerateResponseAuth 1000
     \<lparr>header = replicate 48 0,
      ext = [(NTP_EF_NTS_UNIQUE_IDENTIFIER, replicate 32 0xAB),
             (NTP_EF_NTS_COOKIE, [1, 2, 3, 4]),
             (NTP_EF_NTS_COOKIE_PLACEHOLDER, [1, 2, 3, 4]),
             (NTP_EF_NTS_COOKIE_PLACEHOLDER, [1, 2, 3, 4]),
             (NTP_EF_NTS_AUTH_AND_EEF, [0, 16, 0, 16] @ replicate 32 0)]\<rparr>
     \<lparr>i_length = 148, i_mode = MODE_CLIENT, i_ext_fields = 5\<rparr>
     \<lparr>header = replicate 48 0, ext = []\<rparr>
     \<lparr>i_length = 48, i_mode = MODE_SERVER, i_ext_fields = 0\<rparr>) = 1
   \<and> length (filter (is_type NTP_EF_NTS_COOKIE)
        (ext (fst (snd (NTS_GenerateResponseAuth 1000
     \<lparr>header = replicate 48 0,
      ext = [(NTP_EF_NTS_UNIQUE_IDENTIFIER, replicate 32 0xAB),
             (NTP_EF_NTS_COOKIE, [1, 2, 3, 4]),
             (NTP_EF_NTS_COOKIE_PLACEHOLDER, [1, 2, 3, 4]),
             (NTP_EF_NTS_COOKIE_PLACEHOLDER, [1, 2, 3, 4]),
             (NTP_EF_NTS_AUTH_AND_EEF, [0, 16, 0, 16] @ replicate 32 0)]\<rparr>
     \<lparr>i_length = 148, i_mode = MODE_CLIENT, i_ext_fields = 5\<rparr>
     \<lparr>header = replicate 48 0, ext = []\<rparr>
     \<lparr>i_length = 48, i_mode = MODE_SERVER, i_ext_fields = 0\<rparr>))))) = 4"
proof -
  let ?req = "\<lparr>header = replicate 48 0,
      ext = [(NTP_EF_NTS_UNIQUE_IDENTIFIER, replicate 32 0xAB),
             (NTP_EF_NTS_COOKIE, [1, 2, 3, 4]),
             (NTP_EF_NTS_COOKIE_PLACEHOLDER, [1, 2, 3, 4]),
             (NTP_EF_NTS_COOKIE_PLACEHOLDER, [1, 2, 3, 4]),
             (NTP_EF_NTS_AUTH_AND_EEF, [0, 16, 0, 16] @ replicate 32 0)]\<rparr>"
  let ?ri = "\<lparr>i_length = 148, i_mode = MODE_CLIENT, i_ext_fields = 5\<rparr>"
  let ?res = "\<lparr>header = replicate 48 0, ext = []\<rparr>"
  let ?si = "\<lparr>i_length = 48, i_mode = MODE_SERVER, i_ext_fields = 0\<rparr>"
  let ?g = "NTS_GenerateResponseAuth 1000 ?req ?ri ?res ?si"
  have room: "i_mode ?ri = MODE_CLIENT \<and> i_mode ?si = MODE_SERVER
      \<and> i_length ?si
           + sum_list (map (\<lambda>f. field_size (snd f)) (concat (map response_to (ext ?req))))
           \<le> 1000"
    by (simp add: field_size_def get_padded_length_def)
  from response_cookie_per_field [where req_info = ?ri and res_info = ?si and request = ?req
      and cap = 1000 and response = ?res] room
  have f: "fst ?g = 1" by blast
  then have g: "?g = (1, fst (snd ?g), snd (snd ?g))"
    by (metis prod.collapse)
  have n: "length (filter (is_type NTP_EF_NTS_UNIQUE_IDENTIFIER) (ext ?req)) = 1
        \<and> length (filter (is_type NTP_EF_NTS_COOKIE) (ext ?req)) = 1
        \<and> length (filter (is_type NTP_EF_NTS_COOKIE_PLACEHOLDER) (ext ?req)) = 2"
    by simp
  from response_cookie_per_field [where req_info = ?ri and res_info = ?si and request = ?req
      and cap = 1000 and response = ?res and response' = "fst (snd ?g)"
      and res_info' = "snd (snd ?g)" and N = 2] g n
  have "length (filter (is_type NTP_EF_NTS_COOKIE) (ext (fst (snd ?g))))
          = length (filter (is_type NTP_EF_NTS_COOKIE) (ext ?res)) + 2 + 2"
    by blast
  with f show ?thesis by simp
qed

text \<open>
  C9 as stated fails: the cookie appended for the Unique-Identifier and the one
  appended for the Cookie are the same 100 zero bytes (\<^verbatim>\<open>memset(cookie, 0, sizeof
  (cookie))\<close>); no key, nonce or random source enters \<^verbatim>\<open>add_response_cookie\<close>.
\<close>

theorem response_cookie_not_fresh_counterexample:
  "NTS_GenerateResponseAuth 1000
     \<lparr>header = replicate 48 0,
      ext = [(NTP_EF_NTS_UNIQUE_IDENTIFIER, replicate 32 0xAB),
             (NTP_EF_NTS_COOKIE, [1, 2, 3, 4])]\<rparr>
     \<lparr>i_length = 92, i_mode = MODE_CLIENT, i_ext_fields = 2\<rparr>
     \<lparr>header = replicate 48 0, ext = []\<rparr>
     \<lparr>i_length = 48, i_mode = MODE_SERVER, i_ext_fields = 0\<rparr>
   = (1, \<lparr>header = replicate 48 0,
          ext = [(NTP_EF_NTS_UNIQUE_IDENTIFIER, replicate 32 0xAB),
                 (NTP_EF_NTS_COOKIE, replicate 100 0),
                 (NTP_EF_NTS_COOKIE, replicate 100 0)]\<rparr>,
      \<lparr>i_length = 292, i_mode = MODE_SERVER, i_ext_fields = 3\<rparr>)"
  by (simp add: NTS_GenerateResponseAuth_def response_auth_loop_fields NEF_AddField_def
        add_response_cookie_def get_padded_length_def)

text \<open>
  C7. With \<^verbatim>\<open>num_cookies == 0\<close> \<^verbatim>\<open>NTS_GenerateRequestAuth\<close> returns 0 and leaves the
  instance, the packet and its info as they were. With \<^verbatim>\<open>num_cookies > 0\<close>, a 32-byte
  id, a 16-byte nonce and a 16-byte tag from the SIV primitive, the call returns 1
  whenever the packet has room for the fields (36 bytes for the identifier, one
  field for the cookie and one per placeholder, 40 bytes for the authenticator), and
  a call that returns 1 has appended, in order: the Unique-Identifier with the stored
  id, the Cookie with the cookie at \<^verbatim>\<open>cookie_index\<close>, \<^verbatim>\<open>MAX_COOKIES - num_cookies\<close>
  Cookie-Placeholders with that same body, and one Authenticator field whose body is
  the lengths 16 and 16, the stored nonce and the tag computed over the packet built
  so far; it has decremented \<^verbatim>\<open>num_cookies\<close> and advanced \<^verbatim>\<open>cookie_index\<close> modulo 8.
\<close>

theorem generate_request_auth_fields:
  "(num_cookies inst = 0
      \<longrightarrow> NTS_GenerateRequestAuth cap siv_encrypt inst packet info = (0, inst, packet, info))
   \<and> (0 < num_cookies inst
       \<and> cookie_index inst < length (cookies inst)
       \<and> length (uniq_id inst) = 32 \<and> length (nonce inst) = 16
       \<and> (\<forall>p. length (siv_encrypt (siv_c2s inst) (nonce inst) p []) = 16)
       \<and> NTS_GenerateRequestAuth cap siv_encrypt inst packet info = (1, inst', packet', info')
      \<longrightarrow> (\<exists>tag. ext packet' =
              ext packet
              @ [(NTP_EF_NTS_UNIQUE_IDENTIFIER, uniq_id inst),
                 (NTP_EF_NTS_COOKIE,
                  take (c_length (cookies inst ! cookie_index inst))
                    (cookie (cookies inst ! cookie_index inst)))]
              @ replicate (nat (int MAX_COOKIES - num_cookies inst))
                  (NTP_EF_NTS_COOKIE_PLACEHOLDER,
                   take (c_length (cookies inst ! cookie_index inst))
                     (cookie (cookies inst ! cookie_index inst)))
              @ [(NTP_EF_NTS_AUTH_AND_EEF, [0, 16, 0, 16] @ nonce inst @ tag)]
            \<and> length tag = 16
            \<and> tag = siv_encrypt (siv_c2s inst) (nonce inst)
                      (packet\<lparr>ext := butlast (ext packet')\<rparr>) []
            \<and> parse_auth_and_eef ([0, 16, 0, 16] @ nonce inst @ tag)
                = Some \<lparr>a_nonce = 4, a_ciphertext = 20, nonce_length = 16,
                        ciphertext_length = 16\<rparr>)
          \<and> header packet' = header packet
          \<and> num_cookies inst' = num_cookies inst - 1
          \<and> cookie_index inst' = (cookie_index inst + 1) mod 8)
   \<and> (0 < num_cookies inst
       \<and> cookie_index inst < length (cookies inst)
       \<and> length (uniq_id inst) = 32 \<and> length (nonce inst) = 16
       \<and> (\<forall>p. length (siv_encrypt (siv_c2s inst) (nonce inst) p []) = 16)
       \<and> i_length info + 36
           + (1 + nat (int MAX_COOKIES - num_cookies inst))
             * field_size (take (c_length (cookies inst ! cookie_index inst))
                             (cookie (cookies inst ! cookie_index inst)))
           + 40 \<le> cap
      \<longrightarrow> fst (NTS_GenerateRequestAuth cap siv_encrypt inst packet info) = 1)"
proof -
  have c: "0 < num_cookies inst
       \<and> cookie_index inst < length (cookies inst)
       \<and> length (uniq_id inst) = 32 \<and> length (nonce inst) = 16
       \<and> (\<forall>p. length (siv_encrypt (siv_c2s inst) (nonce inst) p []) = 16)
       \<and> i_length info + 36
           + (1 + nat (int MAX_COOKIES - num_cookies inst))
             * field_size (take (c_length (cookies inst ! cookie_index inst))
                             (cookie (cookies inst ! cookie_index inst)))
           + 40 \<le> cap
      \<longrightarrow> fst (NTS_GenerateRequestAuth cap siv_encrypt inst packet info) = 1"
    using request_auth_succeeds [of inst siv_encrypt info cap packet] by auto
  note s = request_auth_shape [of inst cap siv_encrypt packet info inst' packet' info']
  show ?thesis
    by (intro conjI) (rule s [THEN conjunct1], rule s [THEN conjunct2], rule c)
qed

theorem generate_request_auth_fields_witness:
  "NTS_GenerateRequestAuth 1000 (\<lambda>k n p t. replicate 16 0)
       \<lparr>cookies = replicate 8 \<lparr>c_length = 4, cookie = [1, 2, 3, 4]\<rparr>, num_cookies = 7,
        cookie_index = 1, siv_c2s = replicate 32 1, siv_s2c = replicate 32 2,
        nonce = replicate 16 7, uniq_id = replicate 32 0xAB\<rparr>
       \<lparr>header = replicate 48 0, ext = []\<rparr>
       \<lparr>i_length = 48, i_mode = MODE_CLIENT, i_ext_fields = 0\<rparr>
     = (1, \<lparr>cookies = replicate 8 \<lparr>c_length = 4, cookie = [1, 2, 3, 4]\<rparr>, num_cookies = 6,
        cookie_index = 2, siv_c2s = replicate 32 1, siv_s2c = replicate 32 2,
        nonce = replicate 16 7, uniq_id = replicate 32 0xAB\<rparr>,
        \<lparr>header = replicate 48 0,
        ext = [(NTP_EF_NTS_UNIQUE_IDENTIFIER, replicate 32 0xAB),
               (NTP_EF_NTS_COOKIE, [1, 2, 3, 4]),
               (NTP_EF_NTS_COOKIE_PLACEHOLDER, [1, 2, 3, 4]),
               (NTP_EF_NTS_AUTH_AND_EEF, [0, 16, 0, 16] @ replicate 16 7 @ replicate 16 0)]\<rparr>,
        \<lparr>i_length = 140, i_mode = MODE_CLIENT, i_ext_fields = 4\<rparr>)
   \<and> NTS_GenerateRequestAuth 1000 (\<lambda>k n p t. replicate 16 0)
       \<lparr>cookies = replicate 8 \<lparr>c_length = 4, cookie = [1, 2, 3, 4]\<rparr>, num_cookies = 0,
        cookie_index = 1, siv_c2s = replicate 32 1, siv_s2c = replicate 32 2,
        nonce = replicate 16 7, uniq_id = replicate 32 0xAB\<rparr>
       \<lparr>header = replicate 48 0, ext = []\<rparr>
       \<lparr>i_length = 48, i_mode = MODE_CLIENT, i_ext_fields = 0\<rparr>
     = (0, \<lparr>cookies = replicate 8 \<lparr>c_length = 4, cookie = [1, 2, 3, 4]\<rparr>, num_cookies = 0,
        cookie_index = 1, siv_c2s = replicate 32 1, siv_s2c = replicate 32 2,
        nonce = replicate 16 7, uniq_id = replicate 32 0xAB\<rparr>,
        \<lparr>header = replicate 48 0, ext = []\<rparr>, \<lparr>i_length = 48, i_mode = MODE_CLIENT, i_ext_fields = 0\<rparr>)"
proof -
  let ?inst = "\<lparr>cookies = replicate 8 \<lparr>c_length = 4, cookie = [1, 2, 3, 4]\<rparr>, num_cookies = 7,
        cookie_index = 1, siv_c2s = replicate 32 1, siv_s2c = replicate 32 2,
        nonce = replicate 16 7, uniq_id = replicate 32 0xAB\<rparr>"
  let ?z = "\<lparr>cookies = replicate 8 \<lparr>c_length = 4, cookie = [1, 2, 3, 4]\<rparr>, num_cookies = 0,
        cookie_index = 1, siv_c2s = replicate 32 1, siv_s2c = replicate 32 2,
        nonce = replicate 16 7, uniq_id = replicate 32 0xAB\<rparr>"
  let ?p = "\<lparr>header = replicate 48 0, ext = []\<rparr>"
  let ?i = "\<lparr>i_length = 48, i_mode = MODE_CLIENT, i_ext_fields = 0\<rparr>"
  let ?g = "NTS_GenerateRequestAuth 1000 (\<lambda>k n p t. replicate 16 0) ?inst ?p ?i"
  have f: "fst ?g = 1"
    using generate_request_auth_fields [of ?inst 1000 "(\<lambda>k n p t. replicate 16 0)" ?p ?i]
    by (simp add: MAX_COOKIES_def field_size_def get_padded_length_def)
  then have g: "?g = (1, fst (snd ?g), fst (snd (snd ?g)), snd (snd (snd ?g)))"
    by (metis prod.collapse)
  have i: "snd (snd (snd ?g)) = \<lparr>i_length = 140, i_mode = MODE_CLIENT, i_ext_fields = 4\<rparr>"
    by (simp add: NTS_GenerateRequestAuth_def needs_nke_def NEF_AddField_def
          get_padded_length_def MAX_COOKIES_def UNIQ_ID_LENGTH_def NONCE_LENGTH_def
          SIV_DIGEST_SIZE_def htons_def Let_def)
  have h: "header (fst (snd (snd ?g))) = replicate 48 0
      \<and> ext (fst (snd (snd ?g))) = ext \<lparr>header = replicate 48 0,
        ext = [(NTP_EF_NTS_UNIQUE_IDENTIFIER, replicate 32 0xAB),
               (NTP_EF_NTS_COOKIE, [1, 2, 3, 4]),
               (NTP_EF_NTS_COOKIE_PLACEHOLDER, [1, 2, 3, 4]),
               (NTP_EF_NTS_AUTH_AND_EEF, [0, 16, 0, 16] @ replicate 16 7 @ replicate 16 0)]\<rparr>
      \<and> num_cookies (fst (snd ?g)) = 6 \<and> cookie_index (fst (snd ?g)) = 2"
    using generate_request_auth_fields [of ?inst 1000 "(\<lambda>k n p t. replicate 16 0)" ?p ?i "fst (snd ?g)"
        "fst (snd (snd ?g))" "snd (snd (snd ?g))"] g
    by (simp add: MAX_COOKIES_def field_size_def get_padded_length_def)
  have o: "cookies (fst (snd ?g)) = cookies ?inst \<and> siv_c2s (fst (snd ?g)) = siv_c2s ?inst
      \<and> siv_s2c (fst (snd ?g)) = siv_s2c ?inst \<and> nonce (fst (snd ?g)) = nonce ?inst
      \<and> uniq_id (fst (snd ?g)) = uniq_id ?inst"
    by (simp add: NTS_GenerateRequestAuth_def needs_nke_def NEF_AddField_def
          get_padded_length_def MAX_COOKIES_def UNIQ_ID_LENGTH_def NONCE_LENGTH_def
          SIV_DIGEST_SIZE_def htons_def Let_def)
  have z: "NTS_GenerateRequestAuth 1000 (\<lambda>k n p t. replicate 16 0) ?z ?p ?i = (0, ?z, ?p, ?i)"
    using generate_request_auth_fields [of ?z 1000 "(\<lambda>k n p t. replicate 16 0)" ?p ?i] by simp
  have "?g = (1, fst (snd ?g), fst (snd (snd ?g)), snd (snd (snd ?g)))" by (rule g)
  also have "fst (snd ?g) = \<lparr>cookies = replicate 8 \<lparr>c_length = 4, cookie = [1, 2, 3, 4]\<rparr>, num_cookies = 6,
        cookie_index = 2, siv_c2s = replicate 32 1, siv_s2c = replicate 32 2,
        nonce = replicate 16 7, uniq_id = replicate 32 0xAB\<rparr>"
    using h o by (cases "fst (snd ?g)") simp
  also have "fst (snd (snd ?g)) = \<lparr>header = replicate 48 0,
        ext = [(NTP_EF_NTS_UNIQUE_IDENTIFIER, replicate 32 0xAB),
               (NTP_EF_NTS_COOKIE, [1, 2, 3, 4]),
               (NTP_EF_NTS_COOKIE_PLACEHOLDER, [1, 2, 3, 4]),
               (NTP_EF_NTS_AUTH_AND_EEF, [0, 16, 0, 16] @ replicate 16 7 @ replicate 16 0)]\<rparr>"
    using h by (cases "fst (snd (snd ?g))") simp
  also note i
  finally show ?thesis using z by simp
qed

text \<open>
  C8 (amended). \<^verbatim>\<open>NTS_CheckResponseAuth\<close> returns 0 for every instance and every
  packet: both of its paths end in \<^verbatim>\<open>return 0\<close>.
\<close>

theorem check_response_auth_rejects:
  "NTS_CheckResponseAuth inst packet info = 0"
  by (simp add: NTS_CheckResponseAuth_def)

text \<open>
  C8 as stated fails: the client builds a request, \<^verbatim>\<open>NTS_GenerateResponseAuth\<close>
  answers it, and \<^verbatim>\<open>NTS_CheckResponseAuth\<close> on that client rejects the answer.
\<close>

theorem own_response_rejected_counterexample:
  "NTS_GenerateRequestAuth 1000 (\<lambda>k n p t. replicate 16 0)
       \<lparr>cookies = replicate 8 \<lparr>c_length = 4, cookie = [1, 2, 3, 4]\<rparr>, num_cookies = 7,
        cookie_index = 1, siv_c2s = replicate 32 1, siv_s2c = replicate 32 2,
        nonce = replicate 16 7, uniq_id = replicate 32 0xAB\<rparr>
       \<lparr>header = replicate 48 0, ext = []\<rparr>
       \<lparr>i_length = 48, i_mode = MODE_CLIENT, i_ext_fields = 0\<rparr>
     = (1, \<lparr>cookies = replicate 8 \<lparr>c_length = 4, cookie = [1, 2, 3, 4]\<rparr>, num_cookies = 6,
        cookie_index = 2, siv_c2s = replicate 32 1, siv_s2c = replicate 32 2,
        nonce = replicate 16 7, uniq_id = replicate 32 0xAB\<rparr>,
        \<lparr>header = replicate 48 0,
        ext = [(NTP_EF_NTS_UNIQUE_IDENTIFIER, replicate 32 0xAB),
               (NTP_EF_NTS_COOKIE, [1, 2, 3, 4]),
               (NTP_EF_NTS_COOKIE_PLACEHOLDER, [1, 2, 3, 4]),
               (NTP_EF_NTS_AUTH_AND_EEF, [0, 16, 0, 16] @ replicate 16 7 @ replicate 16 0)]\<rparr>,
        \<lparr>i_length = 140, i_mode = MODE_CLIENT, i_ext_fields = 4\<rparr>)
   \<and> NTS_GenerateResponseAuth 1000
       \<lparr>header = replicate 48 0,
        ext = [(NTP_EF_NTS_UNIQUE_IDENTIFIER, replicate 32 0xAB),
               (NTP_EF_NTS_COOKIE, [1, 2, 3, 4]),
               (NTP_EF_NTS_COOKIE_PLACEHOLDER, [1, 2, 3, 4]),
               (NTP_EF_NTS_AUTH_AND_EEF, [0, 16, 0, 16] @ replicate 16 7 @ replicate 16 0)]\<rparr>
       \<lparr>i_length = 140, i_mode = MODE_CLIENT, i_ext_fields = 4\<rparr>
       \<lparr>header = replicate 48 0, ext = []\<rparr>
       \<lparr>i_length = 48, i_mode = MODE_SERVER, i_ext_fields = 0\<rparr>
     = (1, \<lparr>header = replicate 48 0,
        ext = [(NTP_EF_NTS_UNIQUE_IDENTIFIER, replicate 32 0xAB),
               (NTP_EF_NTS_COOKIE, replicate 100 0),
               (NTP_EF_NTS_COOKIE, replicate 100 0),
               (NTP_EF_NTS_COOKIE, replicate 100 0)]\<rparr>,
        \<lparr>i_length = 396, i_mode = MODE_SERVER, i_ext_fields = 4\<rparr>)
   \<and> NTS_CheckResponseAuth
       \<lparr>cookies = replicate 8 \<lparr>c_length = 4, cookie = [1, 2, 3, 4]\<rparr>, num_cookies = 6,
        cookie_index = 2, siv_c2s = replicate 32 1, siv_s2c = replicate 32 2,
        nonce = replicate 16 7, uniq_id = replicate 32 0xAB\<rparr>
       \<lparr>header = replicate 48 0,
        ext = [(NTP_EF_NTS_UNIQUE_IDENTIFIER, replicate 32 0xAB),
               (NTP_EF_NTS_COOKIE, replicate 100 0),
               (NTP_EF_NTS_COOKIE, replicate 100 0),
               (NTP_EF_NTS_COOKIE, replicate 100 0)]\<rparr>
       \<lparr>i_length = 396, i_mode = MODE_SERVER, i_ext_fields = 4\<rparr> = 0"
  by (simp add: NTS_GenerateRequestAuth_def needs_nke_def NEF_AddField_def
        get_padded_length_def MAX_COOKIES_def UNIQ_ID_LENGTH_def NONCE_LENGTH_def
        SIV_DIGEST_SIZE_def htons_def Let_def NTS_GenerateResponseAuth_def response_auth_loop_fields
        add_response_cookie_def NTS_CheckResponseAuth_def)

end
